theory Spec2Isabelle
  imports Main "HOL-Library.Word"
begin

unbundle bit_operations_syntax

section \<open>Data of the Vulkan and GLFW interfaces used by \<open>src/src/main.cpp\<close>\<close>

text \<open>
  The program is one class \<open>App\<close> that drives the Vulkan driver and GLFW. Both are
  external: what they answer is an input of the model. Handles are opaque; enums of the
  C headers are 32-bit values, with the few constants the program compares against
  taken from \<open>vulkan_core.h\<close>.
\<close>

type_synonym uint32_t = "32 word"
type_synonym VkFormat = uint32_t
type_synonym VkColorSpaceKHR = uint32_t
type_synonym VkPresentModeKHR = uint32_t
type_synonym VkQueueFlags = uint32_t

definition UINT32_MAX :: uint32_t where
  "UINT32_MAX = 0xFFFFFFFF"

definition VK_QUEUE_GRAPHICS_BIT :: VkQueueFlags where
  "VK_QUEUE_GRAPHICS_BIT = 0x00000001"

definition VK_FORMAT_B8G8R8A8_SRGB :: VkFormat where
  "VK_FORMAT_B8G8R8A8_SRGB = 50"

definition VK_COLOR_SPACE_SRGB_NONLINEAR_KHR :: VkColorSpaceKHR where
  "VK_COLOR_SPACE_SRGB_NONLINEAR_KHR = 0"

definition VK_PRESENT_MODE_MAILBOX_KHR :: VkPresentModeKHR where
  "VK_PRESENT_MODE_MAILBOX_KHR = 1"

definition VK_PRESENT_MODE_FIFO_KHR :: VkPresentModeKHR where
  "VK_PRESENT_MODE_FIFO_KHR = 2"

definition VK_KHR_SWAPCHAIN_EXTENSION_NAME :: string where
  "VK_KHR_SWAPCHAIN_EXTENSION_NAME = ''VK_KHR_swapchain''"

definition VK_LAYER_KHRONOS_validation :: string where
  "VK_LAYER_KHRONOS_validation = ''VK_LAYER_KHRONOS_validation''"

definition VALIDATION_LAYERS :: "string list" where
  "VALIDATION_LAYERS = [VK_LAYER_KHRONOS_validation]"

definition DEVICE_EXTENSIONS :: "string list" where
  "DEVICE_EXTENSIONS = [VK_KHR_SWAPCHAIN_EXTENSION_NAME]"

datatype VkSharingMode = VK_SHARING_MODE_EXCLUSIVE | VK_SHARING_MODE_CONCURRENT

record VkExtent2D =
  width :: uint32_t
  height :: uint32_t

record VkSurfaceCapabilitiesKHR =
  minImageCount :: uint32_t
  maxImageCount :: uint32_t
  currentExtent :: VkExtent2D
  minImageExtent :: VkExtent2D
  maxImageExtent :: VkExtent2D
  currentTransform :: uint32_t

record VkSurfaceFormatKHR =
  format :: VkFormat
  colorSpace :: VkColorSpaceKHR

record VkQueueFamilyProperties =
  queueFlags :: VkQueueFlags
  queueCount :: uint32_t

text \<open>
  A physical device is what the driver reports for its handle against the surface
  \<open>m_surface\<close>: the queue families, the answer of
  \<open>vkGetPhysicalDeviceSurfaceSupportKHR\<close> for a family index, the names of the device
  extensions, and the surface capabilities, formats and present modes.
\<close>

record PhysicalDevice =
  queueFamilyProperties :: "VkQueueFamilyProperties list"
  surfaceSupport :: "uint32_t \<Rightarrow> bool"
  deviceExtensionProperties :: "string list"
  surfaceCapabilities :: VkSurfaceCapabilitiesKHR
  surfaceFormats :: "VkSurfaceFormatKHR list"
  surfacePresentModes :: "VkPresentModeKHR list"

text \<open>The queries a device-selection function sends to the driver, in the order sent.\<close>

datatype VkCall =
    vkGetPhysicalDeviceQueueFamilyProperties
  | vkGetPhysicalDeviceSurfaceSupportKHR uint32_t
  | vkEnumerateDeviceExtensionProperties
  | vkGetPhysicalDeviceSurfaceCapabilitiesKHR
  | vkGetPhysicalDeviceSurfaceFormatsKHR
  | vkGetPhysicalDeviceSurfacePresentModesKHR

text \<open>
  Every \<open>throw std::runtime_error\<close> of the program carries its message;
  \<open>std::optional::value()\<close> on an empty optional throws \<open>bad_optional_access\<close>.
  \<open>undefined_behaviour\<close> stands for the two places where the C++ has no defined result:
  \<open>availableFormats[0]\<close> on an empty vector, and a driver call on a null physical device.
\<close>

datatype error = runtime_error string | bad_optional_access | undefined_behaviour

definition InitializationError :: error where
  "InitializationError = runtime_error ''Failed to initialize GLFW''"

definition UnsupportedLayerError :: error where
  "UnsupportedLayerError = runtime_error ''validation layers requested, but not available!''"

definition InstantiationError :: error where
  "InstantiationError = runtime_error ''failed to create instance!''"

definition DiagnosticInstallError :: error where
  "DiagnosticInstallError = runtime_error ''failed to set up debug messenger!''"

definition SurfaceCreationError :: error where
  "SurfaceCreationError = runtime_error ''failed to create window surface!''"

definition NoGPUError :: error where
  "NoGPUError = runtime_error ''failed to find GPUs with Vulkan support!''"

definition NoSuitableDeviceError :: error where
  "NoSuitableDeviceError = runtime_error ''failed to find a suitable GPU!''"

definition DeviceCreationError :: error where
  "DeviceCreationError = runtime_error ''failed to create logical device!''"

definition SwapchainCreationError :: error where
  "SwapchainCreationError = runtime_error ''failed to create swap chain!''"

definition ImageViewCreationError :: error where
  "ImageViewCreationError = runtime_error ''failed to create image views!''"

section \<open>Queue families\<close>

record QueueFamilyIndices =
  graphicsFamily :: "uint32_t option"
  presentFamily :: "uint32_t option"

definition isComplete :: "QueueFamilyIndices \<Rightarrow> bool" where
  "isComplete indices \<longleftrightarrow> graphicsFamily indices \<noteq> None \<and> presentFamily indices \<noteq> None"

text \<open>The test \<open>queueFamily.queueFlags & VK_QUEUE_GRAPHICS_BIT\<close>.\<close>

definition hasGraphics :: "VkQueueFamilyProperties \<Rightarrow> bool" where
  "hasGraphics queueFamily \<longleftrightarrow> (queueFlags queueFamily AND VK_QUEUE_GRAPHICS_BIT) \<noteq> 0"

text \<open>
  The range-for of \<open>App::findQueueFamilies\<close>, with the counter \<open>int i\<close> (converted to
  \<open>uint32_t\<close> where it is stored or passed), the indices found so far and the
  present-support queries sent so far. Both assignments overwrite; \<open>break\<close> leaves the
  loop as soon as both fields are set.
\<close>

fun findQueueFamilies_loop ::
  "(uint32_t \<Rightarrow> bool) \<Rightarrow> nat \<Rightarrow> VkQueueFamilyProperties list \<Rightarrow> QueueFamilyIndices \<Rightarrow> VkCall list
    \<Rightarrow> QueueFamilyIndices \<times> VkCall list" where
  "findQueueFamilies_loop support i [] indices calls = (indices, calls)"
| "findQueueFamilies_loop support i (queueFamily # rest) indices calls =
     (let indices1 = (if hasGraphics queueFamily
                      then indices\<lparr>graphicsFamily := Some (of_nat i)\<rparr> else indices);
          presentSupport = support (of_nat i);
          calls1 = calls @ [vkGetPhysicalDeviceSurfaceSupportKHR (of_nat i)];
          indices2 = (if presentSupport
                      then indices1\<lparr>presentFamily := Some (of_nat i)\<rparr> else indices1)
      in if isComplete indices2 then (indices2, calls1)
         else findQueueFamilies_loop support (i + 1) rest indices2 calls1)"

definition findQueueFamilies :: "PhysicalDevice \<Rightarrow> QueueFamilyIndices \<times> VkCall list" where
  "findQueueFamilies device =
     findQueueFamilies_loop (surfaceSupport device) 0 (queueFamilyProperties device)
       \<lparr>graphicsFamily = None, presentFamily = None\<rparr>
       [vkGetPhysicalDeviceQueueFamilyProperties, vkGetPhysicalDeviceQueueFamilyProperties]"

section \<open>Extension and layer checks\<close>

text \<open>
  \<open>App::checkDeviceExtensionSupport\<close> copies the required names into a
  \<open>std::set<std::string>\<close>, erases every available name from it and tests for emptiness.
  The required list is the global \<open>DEVICE_EXTENSIONS\<close>; the body is kept for any list.
\<close>

fun eraseAvailable :: "string list \<Rightarrow> string set \<Rightarrow> string set" where
  "eraseAvailable [] requiredExtensions = requiredExtensions"
| "eraseAvailable (extensionName # rest) requiredExtensions =
     eraseAvailable rest (requiredExtensions - {extensionName})"

definition extensionsCovered :: "string list \<Rightarrow> string list \<Rightarrow> bool" where
  "extensionsCovered required availableExtensions \<longleftrightarrow>
     eraseAvailable availableExtensions (set required) = {}"

definition checkDeviceExtensionSupport :: "PhysicalDevice \<Rightarrow> bool \<times> VkCall list" where
  "checkDeviceExtensionSupport device =
     (extensionsCovered DEVICE_EXTENSIONS (deviceExtensionProperties device),
      [vkEnumerateDeviceExtensionProperties, vkEnumerateDeviceExtensionProperties])"

text \<open>
  \<open>App::checkValidationLayerSupport\<close>: for each required layer, a linear search with
  \<open>strcmp\<close> that breaks at the first hit; the first layer not found returns false.
\<close>

fun layerFound :: "string \<Rightarrow> string list \<Rightarrow> bool" where
  "layerFound layerName [] = False"
| "layerFound layerName (layerProperties # rest) =
     (if layerName = layerProperties then True else layerFound layerName rest)"

fun layersCovered :: "string list \<Rightarrow> string list \<Rightarrow> bool" where
  "layersCovered [] availableLayers = True"
| "layersCovered (layerName # rest) availableLayers =
     (if \<not> layerFound layerName availableLayers then False
      else layersCovered rest availableLayers)"

definition checkValidationLayerSupport :: "string list \<Rightarrow> bool" where
  "checkValidationLayerSupport availableLayers = layersCovered VALIDATION_LAYERS availableLayers"

section \<open>Swapchain support and the selection policies\<close>

record SwapChainSupportDetails =
  capabilities :: VkSurfaceCapabilitiesKHR
  formats :: "VkSurfaceFormatKHR list"
  presentModes :: "VkPresentModeKHR list"

definition querySwapChainSupport :: "PhysicalDevice \<Rightarrow> SwapChainSupportDetails \<times> VkCall list" where
  "querySwapChainSupport device =
     (let formatCount = length (surfaceFormats device);
          presentModeCount = length (surfacePresentModes device)
      in (\<lparr>capabilities = surfaceCapabilities device,
           formats = (if formatCount \<noteq> 0 then surfaceFormats device else []),
           presentModes = (if presentModeCount \<noteq> 0 then surfacePresentModes device else [])\<rparr>,
          [vkGetPhysicalDeviceSurfaceCapabilitiesKHR, vkGetPhysicalDeviceSurfaceFormatsKHR]
          @ (if formatCount \<noteq> 0 then [vkGetPhysicalDeviceSurfaceFormatsKHR] else [])
          @ [vkGetPhysicalDeviceSurfacePresentModesKHR]
          @ (if presentModeCount \<noteq> 0 then [vkGetPhysicalDeviceSurfacePresentModesKHR] else [])))"

fun selectSwapSurfaceFormat_loop :: "VkSurfaceFormatKHR list \<Rightarrow> VkSurfaceFormatKHR option" where
  "selectSwapSurfaceFormat_loop [] = None"
| "selectSwapSurfaceFormat_loop (availableFormat # rest) =
     (if format availableFormat = VK_FORMAT_B8G8R8A8_SRGB
         \<and> colorSpace availableFormat = VK_COLOR_SPACE_SRGB_NONLINEAR_KHR
      then Some availableFormat
      else selectSwapSurfaceFormat_loop rest)"

text \<open>\<open>availableFormats[0]\<close> on an empty vector is undefined: the model returns the error.\<close>

definition selectSwapSurfaceFormat :: "VkSurfaceFormatKHR list \<Rightarrow> error + VkSurfaceFormatKHR" where
  "selectSwapSurfaceFormat availableFormats =
     (case selectSwapSurfaceFormat_loop availableFormats of
        Some availableFormat \<Rightarrow> Inr availableFormat
      | None \<Rightarrow> (case availableFormats of
                  [] \<Rightarrow> Inl undefined_behaviour
                | first # _ \<Rightarrow> Inr first))"

fun selectSwapPresentMode :: "VkPresentModeKHR list \<Rightarrow> VkPresentModeKHR" where
  "selectSwapPresentMode [] = VK_PRESENT_MODE_FIFO_KHR"
| "selectSwapPresentMode (availablePresentMode # rest) =
     (if availablePresentMode = VK_PRESENT_MODE_MAILBOX_KHR then availablePresentMode
      else selectSwapPresentMode rest)"

text \<open>\<open>std::clamp(v, lo, hi)\<close> as the standard defines it.\<close>

definition std_clamp :: "uint32_t \<Rightarrow> uint32_t \<Rightarrow> uint32_t \<Rightarrow> uint32_t" where
  "std_clamp v lo hi = (if v < lo then lo else if hi < v then hi else v)"

text \<open>
  \<open>App::selectSwapExtent\<close>; the first argument is what \<open>glfwGetWindowSize\<close> writes into
  the two \<open>int\<close>s \<open>_width\<close> and \<open>_height\<close> (here \<open>width'\<close>, \<open>height'\<close>), and \<open>word_of_int\<close> is \<open>static_cast<uint32_t>\<close>.
\<close>

definition selectSwapExtent :: "int \<times> int \<Rightarrow> VkSurfaceCapabilitiesKHR \<Rightarrow> VkExtent2D" where
  "selectSwapExtent windowSize caps =
     (if width (currentExtent caps) \<noteq> UINT32_MAX then currentExtent caps
      else (let (width', height') = windowSize;
                w = std_clamp (word_of_int width')
                      (width (minImageExtent caps)) (width (maxImageExtent caps));
                h = std_clamp (word_of_int height')
                      (height (minImageExtent caps)) (height (maxImageExtent caps))
            in \<lparr>width = w, height = h\<rparr>))"

text \<open>The lambda that computes \<open>imageCount\<close> in \<open>App::createSwapChain\<close>.\<close>

definition imageCount :: "VkSurfaceCapabilitiesKHR \<Rightarrow> uint32_t" where
  "imageCount caps =
     (let imageCount = minImageCount caps + 1
      in if maxImageCount caps > 0 \<and> imageCount > maxImageCount caps
         then maxImageCount caps else imageCount)"

section \<open>Device suitability and selection\<close>

definition isPhysicalDeviceSuitable :: "PhysicalDevice \<Rightarrow> bool \<times> VkCall list" where
  "isPhysicalDeviceSuitable device =
     (let (indices, calls1) = findQueueFamilies device;
          (extensionsSupported, calls2) = checkDeviceExtensionSupport device;
          (swapChainAdequate, calls3) =
             (if extensionsSupported
              then (let (swapChainSupport, calls) = querySwapChainSupport device
                    in (formats swapChainSupport \<noteq> [] \<and> presentModes swapChainSupport \<noteq> [], calls))
              else (False, []))
      in (isComplete indices \<and> extensionsSupported \<and> swapChainAdequate,
          calls1 @ calls2 @ calls3))"

text \<open>
  The loop of \<open>App::selectPhysicalDevice\<close>: \<open>None\<close> is the null handle that
  \<open>selectedPhysicalDevice\<close> starts with; the handles the driver enumerates are not null.
\<close>

fun selectPhysicalDevice_loop :: "PhysicalDevice list \<Rightarrow> PhysicalDevice option" where
  "selectPhysicalDevice_loop [] = None"
| "selectPhysicalDevice_loop (physicalDevice # rest) =
     (if fst (isPhysicalDeviceSuitable physicalDevice) then Some physicalDevice
      else selectPhysicalDevice_loop rest)"

section \<open>The application: creation steps, failure and teardown\<close>

text \<open>
  What the driver and GLFW answer during one run. A field named after an entry point
  holds its outcome (\<open>True\<close> is \<open>VK_SUCCESS\<close>, for \<open>glfwInit\<close> a non-zero result).
  \<open>vkCreateDebugUtilsMessengerEXT\<close> is \<open>None\<close> when \<open>vkGetInstanceProcAddr\<close> returns
  null for it; \<open>vkDestroyDebugUtilsMessengerEXT\<close> tells whether that entry point
  resolves. \<open>swapchainImageCount\<close> is the number of images the driver allocated,
  \<open>vkCreateImageView i\<close> the outcome for the image at index \<open>i\<close>, and
  \<open>glfwWindowShouldClose n\<close> the answer to the call made after \<open>n\<close> polls.
  \<open>ENABLE_VALIDATION_LAYERS\<close> is the build constant (\<open>False\<close> under \<open>NDEBUG\<close>).
\<close>

record Environment =
  ENABLE_VALIDATION_LAYERS :: bool
  glfwInit :: bool
  instanceLayerProperties :: "string list"
  vkCreateInstance :: bool
  vkCreateDebugUtilsMessengerEXT :: "bool option"
  vkDestroyDebugUtilsMessengerEXT :: bool
  glfwCreateWindowSurface :: bool
  physicalDevices :: "PhysicalDevice list"
  vkCreateDevice :: bool
  vkCreateSwapchainKHR :: bool
  swapchainImageCount :: nat
  vkCreateImageView :: "nat \<Rightarrow> bool"
  glfwGetWindowSize :: "int \<times> int"
  glfwWindowShouldClose :: "nat \<Rightarrow> bool"

text \<open>
  The owned resources and the record of their creation and destruction, in the order
  the calls are made. \<open>Created r\<close> is logged when the creating call succeeded,
  \<open>Destroyed r\<close> when the destroying call is made.
\<close>

datatype Resource =
  GLFWLibrary | Window | Instance | DebugMessenger | Surface | Device | SwapChain | ImageView nat

datatype Event = Created Resource | Destroyed Resource

text \<open>
  The fields of \<open>App\<close> that a later step reads. \<open>None\<close> is \<open>VK_NULL_HANDLE\<close>;
  image and view handles are named by their index.
\<close>

record App =
  m_physicalDevice :: "PhysicalDevice option"
  m_swapChainImages :: "nat list"
  m_swapChainImageFormat :: VkFormat
  m_swapChainExtent :: VkExtent2D
  m_swapChainImageViews :: "nat option list"
  events :: "Event list"

text \<open>\<open>auto app = App {}\<close> in \<open>main\<close>: null handles and empty vectors.\<close>

definition App_init :: App where
  "App_init =
     \<lparr>m_physicalDevice = None, m_swapChainImages = [], m_swapChainImageFormat = 0,
      m_swapChainExtent = \<lparr>width = 0, height = 0\<rparr>, m_swapChainImageViews = [], events = []\<rparr>"

text \<open>
  A member function either returns or throws; in both cases the object keeps what was
  written to it before. \<open>andThen f g\<close> is \<open>f(); g();\<close>: an exception of \<open>f\<close> skips \<open>g\<close>.
\<close>

type_synonym step = "App \<Rightarrow> error option \<times> App"

definition andThen :: "step \<Rightarrow> step \<Rightarrow> step" where
  "andThen f g app = (case f app of (Some e, app') \<Rightarrow> (Some e, app') | (None, app') \<Rightarrow> g app')"

definition record_event :: "Event \<Rightarrow> App \<Rightarrow> App" where
  "record_event ev app = app\<lparr>events := events app @ [ev]\<rparr>"

definition createGLFWLibrary :: "Environment \<Rightarrow> step" where
  "createGLFWLibrary env app =
     (if \<not> glfwInit env
      then (Some InitializationError, record_event (Destroyed GLFWLibrary) app)
      else (None, record_event (Created GLFWLibrary) app))"

definition createWindow :: step where
  "createWindow app = (None, record_event (Created Window) app)"

definition createInstance :: "Environment \<Rightarrow> step" where
  "createInstance env app =
     (if ENABLE_VALIDATION_LAYERS env
         \<and> \<not> checkValidationLayerSupport (instanceLayerProperties env)
      then (Some UnsupportedLayerError, app)
      else if \<not> vkCreateInstance env then (Some InstantiationError, app)
      else (None, record_event (Created Instance) app))"

definition setupDebugMessenger :: "Environment \<Rightarrow> step" where
  "setupDebugMessenger env app =
     (if ENABLE_VALIDATION_LAYERS env
      then (if vkCreateDebugUtilsMessengerEXT env \<noteq> Some True
            then (Some DiagnosticInstallError, app)
            else (None, record_event (Created DebugMessenger) app))
      else (None, app))"

definition createSurface :: "Environment \<Rightarrow> step" where
  "createSurface env app =
     (if \<not> glfwCreateWindowSurface env then (Some SurfaceCreationError, app)
      else (None, record_event (Created Surface) app))"

definition selectPhysicalDevice :: "Environment \<Rightarrow> step" where
  "selectPhysicalDevice env app =
     (let physicalDeviceCount = length (physicalDevices env)
      in if physicalDeviceCount = 0 then (Some NoGPUError, app)
         else (case selectPhysicalDevice_loop (physicalDevices env) of
                 None \<Rightarrow> (Some NoSuitableDeviceError, app)
               | Some selectedPhysicalDevice \<Rightarrow>
                   (None, app\<lparr>m_physicalDevice := Some selectedPhysicalDevice\<rparr>)))"

text \<open>
  \<open>App::createLogicalDevice\<close>: the two \<open>.value()\<close> calls come first; the create-info
  built from them is not kept, since the outcome of \<open>vkCreateDevice\<close> is an input.
\<close>

definition createLogicalDevice :: "Environment \<Rightarrow> step" where
  "createLogicalDevice env app =
     (case m_physicalDevice app of
        None \<Rightarrow> (Some undefined_behaviour, app)
      | Some device \<Rightarrow>
          (let indices = fst (findQueueFamilies device)
           in case graphicsFamily indices of
                None \<Rightarrow> (Some bad_optional_access, app)
              | Some graphics \<Rightarrow>
                  (case presentFamily indices of
                     None \<Rightarrow> (Some bad_optional_access, app)
                   | Some present \<Rightarrow>
                       if \<not> vkCreateDevice env then (Some DeviceCreationError, app)
                       else (None, record_event (Created Device) app))))"

record VkSwapchainCreateInfoKHR =
  swapchain_minImageCount :: uint32_t
  imageFormat :: VkFormat
  imageColorSpace :: VkColorSpaceKHR
  imageExtent :: VkExtent2D
  imageSharingMode :: VkSharingMode
  pQueueFamilyIndices :: "uint32_t list"
  preTransform :: uint32_t
  presentMode :: VkPresentModeKHR

text \<open>
  The first half of \<open>App::createSwapChain\<close>, up to the create-info (the fields that
  are constants are left out; \<open>queueFamilyIndexCount\<close> is the length of
  \<open>pQueueFamilyIndices\<close>).
\<close>

definition swapChainCreateInfo :: "PhysicalDevice \<Rightarrow> int \<times> int \<Rightarrow> error + VkSwapchainCreateInfoKHR" where
  "swapChainCreateInfo device windowSize =
     (let swapChainSupport = fst (querySwapChainSupport device)
      in case selectSwapSurfaceFormat (formats swapChainSupport) of
           Inl e \<Rightarrow> Inl e
         | Inr surfaceFormat \<Rightarrow>
             (let mode = selectSwapPresentMode (presentModes swapChainSupport);
                  extent = selectSwapExtent windowSize (capabilities swapChainSupport);
                  count = imageCount (capabilities swapChainSupport);
                  indices = fst (findQueueFamilies device)
              in case graphicsFamily indices of
                   None \<Rightarrow> Inl bad_optional_access
                 | Some graphics \<Rightarrow>
                     (case presentFamily indices of
                        None \<Rightarrow> Inl bad_optional_access
                      | Some present \<Rightarrow>
                          Inr \<lparr>swapchain_minImageCount = count,
                               imageFormat = format surfaceFormat,
                               imageColorSpace = colorSpace surfaceFormat,
                               imageExtent = extent,
                               imageSharingMode =
                                 (if graphicsFamily indices \<noteq> presentFamily indices
                                  then VK_SHARING_MODE_CONCURRENT else VK_SHARING_MODE_EXCLUSIVE),
                               pQueueFamilyIndices =
                                 (if graphicsFamily indices \<noteq> presentFamily indices
                                  then [graphics, present] else []),
                               preTransform = currentTransform (capabilities swapChainSupport),
                               presentMode = mode\<rparr>)))"

definition createSwapChain :: "Environment \<Rightarrow> step" where
  "createSwapChain env app =
     (case m_physicalDevice app of
        None \<Rightarrow> (Some undefined_behaviour, app)
      | Some device \<Rightarrow>
          (case swapChainCreateInfo device (glfwGetWindowSize env) of
             Inl e \<Rightarrow> (Some e, app)
           | Inr createInfo \<Rightarrow>
               if \<not> vkCreateSwapchainKHR env then (Some SwapchainCreationError, app)
               else (None, record_event (Created SwapChain)
                       (app\<lparr>m_swapChainImages := [0 ..< swapchainImageCount env],
                            m_swapChainImageFormat := imageFormat createInfo,
                            m_swapChainExtent := imageExtent createInfo\<rparr>))))"

text \<open>
  The loop of \<open>App::createImageViews\<close> over the images, with the index \<open>i\<close>, the local
  vector \<open>swapChainImageViews\<close> and the events so far. A failing call throws out of the
  loop: the local vector is never moved into \<open>m_swapChainImageViews\<close>.
\<close>

fun createImageViews_loop ::
  "(nat \<Rightarrow> bool) \<Rightarrow> nat \<Rightarrow> nat list \<Rightarrow> nat option list \<Rightarrow> Event list
    \<Rightarrow> error option \<times> nat option list \<times> Event list" where
  "createImageViews_loop create i [] views evs = (None, views, evs)"
| "createImageViews_loop create i (swapChainImage # rest) views evs =
     (if \<not> create i then (Some ImageViewCreationError, views, evs)
      else createImageViews_loop create (i + 1) rest (views[i := Some i])
             (evs @ [Created (ImageView i)]))"

definition createImageViews :: "Environment \<Rightarrow> step" where
  "createImageViews env app =
     (let swapChainImageViews = replicate (length (m_swapChainImages app)) None
      in case createImageViews_loop (vkCreateImageView env) 0 (m_swapChainImages app)
                swapChainImageViews (events app) of
           (Some e, views, evs) \<Rightarrow> (Some e, app\<lparr>events := evs\<rparr>)
         | (None, views, evs) \<Rightarrow> (None, app\<lparr>m_swapChainImageViews := views, events := evs\<rparr>))"

definition initVulkan :: "Environment \<Rightarrow> step" where
  "initVulkan env =
     andThen (createInstance env)
    (andThen (setupDebugMessenger env)
    (andThen (createSurface env)
    (andThen (selectPhysicalDevice env)
    (andThen (createLogicalDevice env)
    (andThen (createSwapChain env)
             (createImageViews env))))))"

text \<open>
  \<open>App::mainLoop\<close> polls until the window asks to close, which need not happen: the
  result is the number of polls, or \<open>None\<close> when the loop never ends.
\<close>

partial_function (option) mainLoop :: "(nat \<Rightarrow> bool) \<Rightarrow> nat \<Rightarrow> nat option" where
  "mainLoop shouldClose polls =
     (if \<not> shouldClose polls then mainLoop shouldClose (polls + 1) else Some polls)"

fun destroyImageViews :: "nat option list \<Rightarrow> Event list" where
  "destroyImageViews [] = []"
| "destroyImageViews (imageView # rest) =
     (case imageView of None \<Rightarrow> [] | Some v \<Rightarrow> [Destroyed (ImageView v)])
     @ destroyImageViews rest"

definition cleanup :: "Environment \<Rightarrow> App \<Rightarrow> App" where
  "cleanup env app =
     app\<lparr>events := events app
        @ destroyImageViews (m_swapChainImageViews app)
        @ [Destroyed SwapChain, Destroyed Device]
        @ (if ENABLE_VALIDATION_LAYERS env \<and> vkDestroyDebugUtilsMessengerEXT env
           then [Destroyed DebugMessenger] else [])
        @ [Destroyed Surface, Destroyed Instance, Destroyed Window, Destroyed GLFWLibrary]\<rparr>"

text \<open>
  \<open>App::run\<close>, as \<open>main\<close> calls it on a fresh object. \<open>cleanup\<close> is the last statement
  of \<open>run\<close> and nothing catches inside it, so an exception of an earlier step leaves
  \<open>run\<close> without reaching it; \<open>main\<close> only prints the message. The outer \<open>None\<close> is a
  main loop that never ends.
\<close>

definition run :: "Environment \<Rightarrow> (error option \<times> App) option" where
  "run env =
     (case andThen (createGLFWLibrary env) (andThen createWindow (initVulkan env)) App_init of
        (Some e, app) \<Rightarrow> Some (Some e, app)
      | (None, app) \<Rightarrow>
          (case mainLoop (glfwWindowShouldClose env) 0 of
             None \<Rightarrow> None
           | Some polls \<Rightarrow> Some (None, cleanup env app)))"

section \<open>Concrete inputs\<close>

definition caps_1280x720 :: VkSurfaceCapabilitiesKHR where
  "caps_1280x720 =
     \<lparr>minImageCount = 2, maxImageCount = 8,
      currentExtent = \<lparr>width = 0xFFFFFFFF, height = 0xFFFFFFFF\<rparr>,
      minImageExtent = \<lparr>width = 1, height = 1\<rparr>,
      maxImageExtent = \<lparr>width = 1280, height = 720\<rparr>,
      currentTransform = 1\<rparr>"

text \<open>A device with one family that does graphics and present.\<close>

definition gpu_one_family :: PhysicalDevice where
  "gpu_one_family =
     \<lparr>queueFamilyProperties = [\<lparr>queueFlags = 1, queueCount = 1\<rparr>],
      surfaceSupport = (\<lambda>i. i = 0),
      deviceExtensionProperties = [''VK_KHR_portability_subset'', ''VK_KHR_swapchain''],
      surfaceCapabilities = caps_1280x720,
      surfaceFormats = [\<lparr>format = 50, colorSpace = 0\<rparr>],
      surfacePresentModes = [2]\<rparr>"

text \<open>Two graphics families (0 and 1), then a family that can only present (2).\<close>

definition gpu_graphics_graphics_present :: PhysicalDevice where
  "gpu_graphics_graphics_present =
     \<lparr>queueFamilyProperties =
        [\<lparr>queueFlags = 1, queueCount = 1\<rparr>, \<lparr>queueFlags = 3, queueCount = 1\<rparr>,
         \<lparr>queueFlags = 4, queueCount = 1\<rparr>],
      surfaceSupport = (\<lambda>i. i = 2),
      deviceExtensionProperties = [''VK_KHR_swapchain''],
      surfaceCapabilities = caps_1280x720,
      surfaceFormats = [\<lparr>format = 50, colorSpace = 0\<rparr>],
      surfacePresentModes = [2]\<rparr>"

text \<open>A device without the swapchain extension.\<close>

definition gpu_no_swapchain :: PhysicalDevice where
  "gpu_no_swapchain = gpu_one_family\<lparr>deviceExtensionProperties := [''VK_KHR_maintenance1'']\<rparr>"

text \<open>
  A debug build on a machine where everything succeeds and the driver allocates three
  swapchain images; the window closes after two polls.
\<close>

definition env_ok :: Environment where
  "env_ok =
     \<lparr>ENABLE_VALIDATION_LAYERS = True, glfwInit = True,
      instanceLayerProperties = [''VK_LAYER_KHRONOS_validation''],
      vkCreateInstance = True, vkCreateDebugUtilsMessengerEXT = Some True,
      vkDestroyDebugUtilsMessengerEXT = True, glfwCreateWindowSurface = True,
      physicalDevices = [gpu_no_swapchain, gpu_one_family, gpu_graphics_graphics_present],
      vkCreateDevice = True, vkCreateSwapchainKHR = True, swapchainImageCount = 3,
      vkCreateImageView = (\<lambda>i. True), glfwGetWindowSize = (800, 600),
      glfwWindowShouldClose = (\<lambda>n. 2 \<le> n)\<rparr>"

text \<open>The same machine, with the creation of the image view at index 1 failing.\<close>

definition env_view1_fails :: Environment where
  "env_view1_fails = env_ok\<lparr>vkCreateImageView := (\<lambda>i. i \<noteq> 1)\<rparr>"

text \<open>The object as that run leaves it.\<close>

definition app_view1_failed :: App where
  "app_view1_failed =
     \<lparr>m_physicalDevice = Some gpu_one_family, m_swapChainImages = [0, 1, 2],
      m_swapChainImageFormat = 50, m_swapChainExtent = \<lparr>width = 800, height = 600\<rparr>,
      m_swapChainImageViews = [],
      events = [Created GLFWLibrary, Created Window, Created Instance, Created DebugMessenger,
                Created Surface, Created Device, Created SwapChain, Created (ImageView 0)]\<rparr>"

section \<open>Selection policies of the swapchain\<close>

lemma selectSwapSurfaceFormat_loop_None:
  "selectSwapSurfaceFormat_loop fs = None \<longleftrightarrow>
     (\<forall>f \<in> set fs. \<not> (format f = VK_FORMAT_B8G8R8A8_SRGB \<and> colorSpace f = VK_COLOR_SPACE_SRGB_NONLINEAR_KHR))"
  by (induction fs) auto

lemma selectSwapSurfaceFormat_loop_Some:
  "selectSwapSurfaceFormat_loop fs = Some f \<Longrightarrow>
     f \<in> set fs \<and> format f = VK_FORMAT_B8G8R8A8_SRGB \<and> colorSpace f = VK_COLOR_SPACE_SRGB_NONLINEAR_KHR"
  by (induction fs) (auto split: if_splits)

text \<open>
  Claim C6. For a non-empty list of surface formats, \<open>selectSwapSurfaceFormat\<close> returns
  an entry of the list with format \<open>VK_FORMAT_B8G8R8A8_SRGB\<close> and colour space
  \<open>VK_COLOR_SPACE_SRGB_NONLINEAR_KHR\<close> whenever the list has one, wherever it stands;
  when the list has none, it returns the first entry.
\<close>

theorem selectSwapSurfaceFormat_prefers_bgra_srgb:
  assumes "availableFormats \<noteq> []"
  shows "((\<exists>f \<in> set availableFormats. format f = VK_FORMAT_B8G8R8A8_SRGB
             \<and> colorSpace f = VK_COLOR_SPACE_SRGB_NONLINEAR_KHR) \<longrightarrow>
          (\<exists>f \<in> set availableFormats.
             selectSwapSurfaceFormat availableFormats = Inr f
             \<and> format f = VK_FORMAT_B8G8R8A8_SRGB
             \<and> colorSpace f = VK_COLOR_SPACE_SRGB_NONLINEAR_KHR))
       \<and> ((\<forall>f \<in> set availableFormats. \<not> (format f = VK_FORMAT_B8G8R8A8_SRGB
             \<and> colorSpace f = VK_COLOR_SPACE_SRGB_NONLINEAR_KHR)) \<longrightarrow>
          selectSwapSurfaceFormat availableFormats = Inr (hd availableFormats))"
proof (intro conjI impI)
  assume "\<exists>f \<in> set availableFormats. format f = VK_FORMAT_B8G8R8A8_SRGB
             \<and> colorSpace f = VK_COLOR_SPACE_SRGB_NONLINEAR_KHR"
  then have "selectSwapSurfaceFormat_loop availableFormats \<noteq> None"
    by (simp add: selectSwapSurfaceFormat_loop_None)
  then obtain f where f: "selectSwapSurfaceFormat_loop availableFormats = Some f"
    by blast
  from selectSwapSurfaceFormat_loop_Some [OF f] f
  show "\<exists>f \<in> set availableFormats.
             selectSwapSurfaceFormat availableFormats = Inr f
             \<and> format f = VK_FORMAT_B8G8R8A8_SRGB
             \<and> colorSpace f = VK_COLOR_SPACE_SRGB_NONLINEAR_KHR"
    by (auto simp: selectSwapSurfaceFormat_def)
next
  assume "\<forall>f \<in> set availableFormats. \<not> (format f = VK_FORMAT_B8G8R8A8_SRGB
             \<and> colorSpace f = VK_COLOR_SPACE_SRGB_NONLINEAR_KHR)"
  then have "selectSwapSurfaceFormat_loop availableFormats = None"
    by (simp add: selectSwapSurfaceFormat_loop_None)
  with assms show "selectSwapSurfaceFormat availableFormats = Inr (hd availableFormats)"
    by (cases availableFormats) (simp_all add: selectSwapSurfaceFormat_def)
qed

theorem selectSwapSurfaceFormat_prefers_bgra_srgb_witness:
  "selectSwapSurfaceFormat
     [\<lparr>format = 44, colorSpace = 0\<rparr>, \<lparr>format = 50, colorSpace = 0\<rparr>, \<lparr>format = 37, colorSpace = 0\<rparr>]
   = Inr \<lparr>format = 50, colorSpace = 0\<rparr>
   \<and> selectSwapSurfaceFormat [\<lparr>format = 44, colorSpace = 0\<rparr>, \<lparr>format = 50, colorSpace = 7\<rparr>]
   = Inr \<lparr>format = 44, colorSpace = 0\<rparr>"
  using selectSwapSurfaceFormat_prefers_bgra_srgb
          [of "[\<lparr>format = 44, colorSpace = 0\<rparr>, \<lparr>format = 50, colorSpace = 0\<rparr>, \<lparr>format = 37, colorSpace = 0\<rparr>]"]
        selectSwapSurfaceFormat_prefers_bgra_srgb
          [of "[\<lparr>format = 44, colorSpace = 0\<rparr>, \<lparr>format = 50, colorSpace = 7\<rparr>]"]
  by (simp add: VK_FORMAT_B8G8R8A8_SRGB_def VK_COLOR_SPACE_SRGB_NONLINEAR_KHR_def)

lemma selectSwapPresentMode_cases:
  "selectSwapPresentMode ms =
     (if VK_PRESENT_MODE_MAILBOX_KHR \<in> set ms then VK_PRESENT_MODE_MAILBOX_KHR
      else VK_PRESENT_MODE_FIFO_KHR)"
  by (induction ms) auto

text \<open>
  Claim C7. \<open>selectSwapPresentMode\<close> is total: it returns mailbox when mailbox is in
  the list and FIFO otherwise, whether or not FIFO is in the list.
\<close>

theorem selectSwapPresentMode_mailbox_else_fifo:
  "(VK_PRESENT_MODE_MAILBOX_KHR \<in> set availablePresentModes \<longrightarrow>
      selectSwapPresentMode availablePresentModes = VK_PRESENT_MODE_MAILBOX_KHR)
   \<and> (VK_PRESENT_MODE_MAILBOX_KHR \<notin> set availablePresentModes \<longrightarrow>
      selectSwapPresentMode availablePresentModes = VK_PRESENT_MODE_FIFO_KHR)"
  by (simp add: selectSwapPresentMode_cases)

theorem selectSwapPresentMode_mailbox_else_fifo_witness:
  "selectSwapPresentMode [0, 2, 1, 3] = VK_PRESENT_MODE_MAILBOX_KHR
   \<and> selectSwapPresentMode [0, 3] = VK_PRESENT_MODE_FIFO_KHR
   \<and> VK_PRESENT_MODE_FIFO_KHR \<notin> set [0, 3]"
  using selectSwapPresentMode_mailbox_else_fifo [of "[0, 2, 1, 3]"]
        selectSwapPresentMode_mailbox_else_fifo [of "[0, 3]"]
  by (simp add: VK_PRESENT_MODE_MAILBOX_KHR_def VK_PRESENT_MODE_FIFO_KHR_def)

lemma std_clamp_range:
  assumes "lo \<le> hi"
  shows "uint (std_clamp v lo hi) = max (uint lo) (min (uint v) (uint hi))"
  using assms by (auto simp: std_clamp_def word_less_def word_le_def max_def min_def)

lemma static_cast_uint32:
  assumes "0 \<le> n" "n < 2 ^ 31"
  shows "uint (word_of_int n :: uint32_t) = n"
  using assms by (simp add: uint_word_of_int take_bit_eq_mod)

text \<open>
  Claim C8. When the width of the current extent is not the sentinel \<open>UINT32_MAX\<close>,
  \<open>selectSwapExtent\<close> returns the current extent unchanged. When it is the sentinel,
  the width and the height of the window (non-negative \<open>int\<close>s) are each clamped into
  the range from the minimal to the maximal image extent of that axis, for capabilities
  whose minimal extent does not exceed the maximal one.
\<close>

theorem selectSwapExtent_current_or_clamped:
  assumes "width (minImageExtent caps) \<le> width (maxImageExtent caps)"
      and "height (minImageExtent caps) \<le> height (maxImageExtent caps)"
      and "0 \<le> w" "w < 2 ^ 31" "0 \<le> h" "h < 2 ^ 31"
  shows "(width (currentExtent caps) \<noteq> UINT32_MAX \<longrightarrow>
            selectSwapExtent (w, h) caps = currentExtent caps)
       \<and> (width (currentExtent caps) = UINT32_MAX \<longrightarrow>
            uint (width (selectSwapExtent (w, h) caps))
              = max (uint (width (minImageExtent caps))) (min w (uint (width (maxImageExtent caps))))
          \<and> uint (height (selectSwapExtent (w, h) caps))
              = max (uint (height (minImageExtent caps))) (min h (uint (height (maxImageExtent caps)))))"
  using assms
  by (simp add: selectSwapExtent_def std_clamp_range static_cast_uint32)

theorem selectSwapExtent_current_or_clamped_witness:
  "uint (width (selectSwapExtent (1920, 1080) caps_1280x720)) = 1280
   \<and> uint (height (selectSwapExtent (1920, 1080) caps_1280x720)) = 720"
  using selectSwapExtent_current_or_clamped [of caps_1280x720 1920 1080]
  by (simp add: caps_1280x720_def UINT32_MAX_def)

lemma selectSwapExtent_verbatim_1024x768:
  "selectSwapExtent (800, 600)
     (caps\<lparr>currentExtent := \<lparr>width = 1024, height = 768\<rparr>\<rparr>) = \<lparr>width = 1024, height = 768\<rparr>"
  by (simp add: selectSwapExtent_def UINT32_MAX_def)

lemma unat_plus_one:
  assumes "(n :: uint32_t) \<noteq> UINT32_MAX"
  shows "unat (n + 1) = unat n + 1"
proof -
  have "n \<noteq> - 1"
  proof
    assume "n = - 1"
    then have "n = UINT32_MAX" by (simp add: UINT32_MAX_def)
    with assms show False by simp
  qed
  then have "1 + n \<noteq> 0" by (metis add.commute add_eq_0_iff)
  then have "unat (1 + n) = Suc (unat n)" by (rule unatSuc)
  then show ?thesis by (simp add: add.commute)
qed

text \<open>
  Claim C9. The requested image count is \<open>minImageCount + 1\<close>, replaced by
  \<open>maxImageCount\<close> when that is non-zero and smaller; read as natural numbers this
  holds whenever \<open>minImageCount + 1\<close> does not wrap around. With a minimum of 2, the
  maxima 0, 3 and 8 all give 3.
\<close>

theorem imageCount_min_plus_one_capped:
  "(minImageCount caps \<noteq> UINT32_MAX \<longrightarrow>
      unat (imageCount caps) =
        (if maxImageCount caps \<noteq> 0 \<and> unat (maxImageCount caps) < unat (minImageCount caps) + 1
         then unat (maxImageCount caps) else unat (minImageCount caps) + 1))
   \<and> imageCount (caps\<lparr>minImageCount := 2, maxImageCount := 0\<rparr>) = 3
   \<and> imageCount (caps\<lparr>minImageCount := 2, maxImageCount := 3\<rparr>) = 3
   \<and> imageCount (caps\<lparr>minImageCount := 2, maxImageCount := 8\<rparr>) = 3"
proof (intro conjI impI)
  assume "minImageCount caps \<noteq> UINT32_MAX"
  then have "unat (minImageCount caps + 1) = unat (minImageCount caps) + 1"
    by (rule unat_plus_one)
  then show "unat (imageCount caps) =
        (if maxImageCount caps \<noteq> 0 \<and> unat (maxImageCount caps) < unat (minImageCount caps) + 1
         then unat (maxImageCount caps) else unat (minImageCount caps) + 1)"
    by (auto simp: imageCount_def Let_def word_less_nat_alt word_greater_zero_iff unat_eq_0)
qed (simp_all add: imageCount_def)

theorem imageCount_min_plus_one_capped_witness:
  "unat (imageCount caps_1280x720) = 3"
  using imageCount_min_plus_one_capped [of caps_1280x720]
  by (simp add: caps_1280x720_def UINT32_MAX_def)

section \<open>The subset checks\<close>

lemma eraseAvailable_diff: "eraseAvailable available S = S - set available"
  by (induction available arbitrary: S) auto

lemma extensionsCovered_subset: "extensionsCovered required available \<longleftrightarrow> set required \<subseteq> set available"
  by (simp add: extensionsCovered_def eraseAvailable_diff)

lemma layerFound_member: "layerFound layerName available \<longleftrightarrow> layerName \<in> set available"
  by (induction available) auto

lemma layersCovered_subset: "layersCovered required available \<longleftrightarrow> set required \<subseteq> set available"
  by (induction required) (auto simp: layerFound_member)

text \<open>
  Claim C3. Both subset checks (the set-erasing one of \<open>checkDeviceExtensionSupport\<close> and
  the nested search of \<open>checkValidationLayerSupport\<close>) hold exactly when every required
  name is equal, character by character, to some available name. The answer depends on
  the two lists only through their sets of names, so neither order nor repetition
  matters. With the program's own required lists, this is what the two member functions
  compute.
\<close>

theorem subset_checks_exact_match:
  "(extensionsCovered required available \<longleftrightarrow> (\<forall>name \<in> set required. name \<in> set available))
   \<and> (layersCovered required available \<longleftrightarrow> (\<forall>name \<in> set required. name \<in> set available))
   \<and> (set required' = set required \<and> set available' = set available \<longrightarrow>
        extensionsCovered required' available' = extensionsCovered required available
        \<and> layersCovered required' available' = layersCovered required available)
   \<and> (fst (checkDeviceExtensionSupport device) \<longleftrightarrow>
        (\<forall>name \<in> set DEVICE_EXTENSIONS. name \<in> set (deviceExtensionProperties device)))
   \<and> (checkValidationLayerSupport available \<longleftrightarrow>
        (\<forall>name \<in> set VALIDATION_LAYERS. name \<in> set available))"
  by (auto simp: extensionsCovered_subset layersCovered_subset checkDeviceExtensionSupport_def
        checkValidationLayerSupport_def)

theorem subset_checks_exact_match_witness:
  "extensionsCovered [''b'', ''a'', ''b''] [''a'', ''c'', ''b'', ''a'']
   \<and> layersCovered [''b'', ''a'', ''b''] [''a'', ''c'', ''b'', ''a'']
   \<and> extensionsCovered [''a'', ''b''] [''b'', ''c'', ''a'']
   \<and> layersCovered [''a'', ''b''] [''b'', ''c'', ''a'']
   \<and> \<not> extensionsCovered [''VK_KHR_swapchain''] [''vk_khr_swapchain'', ''VK_KHR_SWAPCHAIN'']
   \<and> \<not> layersCovered [''VK_KHR_swapchain''] [''vk_khr_swapchain'', ''VK_KHR_SWAPCHAIN'']
   \<and> fst (checkDeviceExtensionSupport gpu_one_family)
   \<and> \<not> fst (checkDeviceExtensionSupport gpu_no_swapchain)
   \<and> checkValidationLayerSupport [''VK_LAYER_KHRONOS_validation'']"
proof -
  note t1 = subset_checks_exact_match
              [of "[''b'', ''a'', ''b'']" "[''a'', ''c'', ''b'', ''a'']"
                  "[''a'', ''b'']" "[''b'', ''c'', ''a'']" gpu_one_family]
  note t2 = subset_checks_exact_match
              [of "[''VK_KHR_swapchain'']" "[''vk_khr_swapchain'', ''VK_KHR_SWAPCHAIN'']"
                  "[]" "[]" gpu_no_swapchain]
  note t3 = subset_checks_exact_match
              [of "[''VK_LAYER_KHRONOS_validation'']" "[''VK_LAYER_KHRONOS_validation'']"
                  "[]" "[]" gpu_one_family]
  have same: "set [''a'', ''b''] = set [''b'', ''a'', ''b'']"
    "set [''b'', ''c'', ''a''] = set [''a'', ''c'', ''b'', ''a'']"
    by auto
  have ordered: "extensionsCovered [''b'', ''a'', ''b''] [''a'', ''c'', ''b'', ''a'']"
    "layersCovered [''b'', ''a'', ''b''] [''a'', ''c'', ''b'', ''a'']"
    using t1 by simp_all
  with t1 same have reordered: "extensionsCovered [''a'', ''b''] [''b'', ''c'', ''a'']"
    "layersCovered [''a'', ''b''] [''b'', ''c'', ''a'']"
    by blast+
  have cased: "\<not> extensionsCovered [''VK_KHR_swapchain''] [''vk_khr_swapchain'', ''VK_KHR_SWAPCHAIN'']"
    "\<not> layersCovered [''VK_KHR_swapchain''] [''vk_khr_swapchain'', ''VK_KHR_SWAPCHAIN'']"
    using t2 by simp_all
  have device: "fst (checkDeviceExtensionSupport gpu_one_family)"
    "\<not> fst (checkDeviceExtensionSupport gpu_no_swapchain)"
    using t1 t2
    by (simp_all add: gpu_one_family_def gpu_no_swapchain_def DEVICE_EXTENSIONS_def
          VK_KHR_SWAPCHAIN_EXTENSION_NAME_def)
  have layer: "checkValidationLayerSupport [''VK_LAYER_KHRONOS_validation'']"
    using t3 by (simp add: VALIDATION_LAYERS_def VK_LAYER_KHRONOS_validation_def)
  from ordered reordered cased device layer show ?thesis by blast
qed

section \<open>Suitability of a physical device\<close>

lemma findQueueFamilies_loop_calls_mem:
  "c \<in> set (snd (findQueueFamilies_loop support i families indices calls))
     \<Longrightarrow> c \<in> set calls \<or> c \<in> range vkGetPhysicalDeviceSurfaceSupportKHR"
proof (induction families arbitrary: i indices calls)
  case Nil
  then show ?case by simp
next
  case (Cons queueFamily rest)
  show ?case
  proof (cases "c \<in> set (calls @ [vkGetPhysicalDeviceSurfaceSupportKHR (of_nat i)])")
    case True
    then show ?thesis by auto
  next
    case False
    with Cons.prems obtain indices2 where
      "c \<in> set (snd (findQueueFamilies_loop support (i + 1) rest indices2
               (calls @ [vkGetPhysicalDeviceSurfaceSupportKHR (of_nat i)])))"
      by (auto simp: Let_def split: if_splits)
    from Cons.IH [OF this] False show ?thesis by simp
  qed
qed

lemma findQueueFamilies_loop_calls:
  "set (snd (findQueueFamilies_loop support i families indices calls))
     \<subseteq> set calls \<union> range vkGetPhysicalDeviceSurfaceSupportKHR"
  using findQueueFamilies_loop_calls_mem by blast

lemma findQueueFamilies_calls:
  "set (snd (findQueueFamilies device))
     \<subseteq> {vkGetPhysicalDeviceQueueFamilyProperties} \<union> range vkGetPhysicalDeviceSurfaceSupportKHR"
  using findQueueFamilies_loop_calls
    [of "surfaceSupport device" 0 "queueFamilyProperties device"
        "\<lparr>graphicsFamily = None, presentFamily = None\<rparr>"
        "[vkGetPhysicalDeviceQueueFamilyProperties, vkGetPhysicalDeviceQueueFamilyProperties]"]
  by (simp add: findQueueFamilies_def)

lemma isPhysicalDeviceSuitable_fst:
  "fst (isPhysicalDeviceSuitable device) \<longleftrightarrow>
     isComplete (fst (findQueueFamilies device))
     \<and> set DEVICE_EXTENSIONS \<subseteq> set (deviceExtensionProperties device)
     \<and> surfaceFormats device \<noteq> [] \<and> surfacePresentModes device \<noteq> []"
  by (auto simp: isPhysicalDeviceSuitable_def checkDeviceExtensionSupport_def
        querySwapChainSupport_def extensionsCovered_subset Let_def split: prod.splits)

lemma isPhysicalDeviceSuitable_snd:
  "snd (isPhysicalDeviceSuitable device) =
     snd (findQueueFamilies device) @ snd (checkDeviceExtensionSupport device)
     @ (if fst (checkDeviceExtensionSupport device) then snd (querySwapChainSupport device) else [])"
  by (auto simp: isPhysicalDeviceSuitable_def Let_def split: prod.splits)


lemma querySwapChainSupport_calls:
  "vkGetPhysicalDeviceSurfaceCapabilitiesKHR \<in> set (snd (querySwapChainSupport device))"
  "vkGetPhysicalDeviceSurfaceFormatsKHR \<in> set (snd (querySwapChainSupport device))"
  "vkGetPhysicalDeviceSurfacePresentModesKHR \<in> set (snd (querySwapChainSupport device))"
  by (simp_all add: querySwapChainSupport_def Let_def)

lemma swapchain_query_only_after_extensions:
  assumes "c \<in> {vkGetPhysicalDeviceSurfaceCapabilitiesKHR, vkGetPhysicalDeviceSurfaceFormatsKHR,
                 vkGetPhysicalDeviceSurfacePresentModesKHR}"
  shows "c \<in> set (snd (isPhysicalDeviceSuitable device)) \<longleftrightarrow> fst (checkDeviceExtensionSupport device)"
proof -
  have "c \<notin> set (snd (findQueueFamilies device))"
    using findQueueFamilies_calls [of device] assms by auto
  moreover have "c \<notin> set (snd (checkDeviceExtensionSupport device))"
    using assms by (auto simp: checkDeviceExtensionSupport_def)
  moreover have "c \<in> set (snd (querySwapChainSupport device))"
    using assms querySwapChainSupport_calls [of device] by auto
  ultimately show ?thesis
    by (simp add: isPhysicalDeviceSuitable_snd)
qed

text \<open>
  Claim C4. A device is suitable exactly when its queue-family indices are complete, its
  device extensions include every required one, and its surface-format list and
  present-mode list are both non-empty; so it is unsuitable when the indices are
  incomplete, when a required extension is missing (whatever the indices), and when a
  list is empty. The swapchain-support queries are sent exactly when the extension check
  holds.
\<close>

theorem isPhysicalDeviceSuitable_three_conditions:
  "(fst (isPhysicalDeviceSuitable device) \<longleftrightarrow>
      isComplete (fst (findQueueFamilies device))
      \<and> (\<forall>name \<in> set DEVICE_EXTENSIONS. name \<in> set (deviceExtensionProperties device))
      \<and> surfaceFormats device \<noteq> [] \<and> surfacePresentModes device \<noteq> [])
   \<and> (\<not> isComplete (fst (findQueueFamilies device)) \<longrightarrow> \<not> fst (isPhysicalDeviceSuitable device))
   \<and> (\<not> fst (checkDeviceExtensionSupport device) \<longrightarrow> \<not> fst (isPhysicalDeviceSuitable device))
   \<and> (surfaceFormats device = [] \<or> surfacePresentModes device = [] \<longrightarrow>
        \<not> fst (isPhysicalDeviceSuitable device))
   \<and> (vkGetPhysicalDeviceSurfaceCapabilitiesKHR \<in> set (snd (isPhysicalDeviceSuitable device))
        \<longleftrightarrow> fst (checkDeviceExtensionSupport device))
   \<and> (vkGetPhysicalDeviceSurfaceFormatsKHR \<in> set (snd (isPhysicalDeviceSuitable device))
        \<longleftrightarrow> fst (checkDeviceExtensionSupport device))
   \<and> (vkGetPhysicalDeviceSurfacePresentModesKHR \<in> set (snd (isPhysicalDeviceSuitable device))
        \<longleftrightarrow> fst (checkDeviceExtensionSupport device))"
proof -
  have ext: "fst (checkDeviceExtensionSupport device) \<longleftrightarrow>
      set DEVICE_EXTENSIONS \<subseteq> set (deviceExtensionProperties device)"
    by (simp add: checkDeviceExtensionSupport_def extensionsCovered_subset)
  have main: "fst (isPhysicalDeviceSuitable device) \<longleftrightarrow>
      isComplete (fst (findQueueFamilies device))
      \<and> (\<forall>name \<in> set DEVICE_EXTENSIONS. name \<in> set (deviceExtensionProperties device))
      \<and> surfaceFormats device \<noteq> [] \<and> surfacePresentModes device \<noteq> []"
    by (auto simp: isPhysicalDeviceSuitable_fst)
  have queries:
    "vkGetPhysicalDeviceSurfaceCapabilitiesKHR \<in> set (snd (isPhysicalDeviceSuitable device))
        \<longleftrightarrow> fst (checkDeviceExtensionSupport device)"
    "vkGetPhysicalDeviceSurfaceFormatsKHR \<in> set (snd (isPhysicalDeviceSuitable device))
        \<longleftrightarrow> fst (checkDeviceExtensionSupport device)"
    "vkGetPhysicalDeviceSurfacePresentModesKHR \<in> set (snd (isPhysicalDeviceSuitable device))
        \<longleftrightarrow> fst (checkDeviceExtensionSupport device)"
    by (simp_all add: swapchain_query_only_after_extensions)
  from main ext queries show ?thesis by blast
qed

lemma findQueueFamilies_gpu_one_family:
  "fst (findQueueFamilies gpu_one_family) = \<lparr>graphicsFamily = Some 0, presentFamily = Some 0\<rparr>"
  by (simp add: findQueueFamilies_def gpu_one_family_def VK_QUEUE_GRAPHICS_BIT_def hasGraphics_def isComplete_def)

lemma suitable_gpu_one_family: "fst (isPhysicalDeviceSuitable gpu_one_family)"
  by (simp add: isPhysicalDeviceSuitable_fst findQueueFamilies_gpu_one_family isComplete_def)
     (simp add: gpu_one_family_def DEVICE_EXTENSIONS_def VK_KHR_SWAPCHAIN_EXTENSION_NAME_def)

lemma unsuitable_gpu_no_swapchain: "\<not> fst (isPhysicalDeviceSuitable gpu_no_swapchain)"
  by (simp add: isPhysicalDeviceSuitable_fst gpu_no_swapchain_def gpu_one_family_def
        DEVICE_EXTENSIONS_def VK_KHR_SWAPCHAIN_EXTENSION_NAME_def)

theorem isPhysicalDeviceSuitable_three_conditions_witness:
  "fst (isPhysicalDeviceSuitable gpu_one_family)
   \<and> vkGetPhysicalDeviceSurfaceCapabilitiesKHR \<in> set (snd (isPhysicalDeviceSuitable gpu_one_family))
   \<and> isComplete (fst (findQueueFamilies gpu_no_swapchain))
   \<and> \<not> fst (isPhysicalDeviceSuitable gpu_no_swapchain)
   \<and> vkGetPhysicalDeviceSurfaceCapabilitiesKHR \<notin> set (snd (isPhysicalDeviceSuitable gpu_no_swapchain))
   \<and> \<not> fst (isPhysicalDeviceSuitable (gpu_one_family\<lparr>surfacePresentModes := []\<rparr>))
   \<and> \<not> fst (isPhysicalDeviceSuitable (gpu_one_family\<lparr>queueFamilyProperties := []\<rparr>))"
proof -
  have complete: "isComplete (fst (findQueueFamilies gpu_no_swapchain))"
    by (simp add: findQueueFamilies_def gpu_no_swapchain_def gpu_one_family_def
          VK_QUEUE_GRAPHICS_BIT_def hasGraphics_def isComplete_def)
  have incomplete: "\<not> isComplete (fst (findQueueFamilies (gpu_one_family\<lparr>queueFamilyProperties := []\<rparr>)))"
    by (simp add: findQueueFamilies_def isComplete_def)
  have ext: "\<forall>name \<in> set DEVICE_EXTENSIONS. name \<in> set (deviceExtensionProperties gpu_one_family)"
    "\<not> (\<forall>name \<in> set DEVICE_EXTENSIONS. name \<in> set (deviceExtensionProperties gpu_no_swapchain))"
    by (simp_all add: gpu_no_swapchain_def gpu_one_family_def DEVICE_EXTENSIONS_def
          VK_KHR_SWAPCHAIN_EXTENSION_NAME_def)
  have lists: "surfaceFormats gpu_one_family \<noteq> []" "surfacePresentModes gpu_one_family \<noteq> []"
    by (simp_all add: gpu_one_family_def)
  have one: "isComplete (fst (findQueueFamilies gpu_one_family))"
    by (simp add: findQueueFamilies_gpu_one_family isComplete_def)
  note t1 = isPhysicalDeviceSuitable_three_conditions [of gpu_one_family]
  note t2 = isPhysicalDeviceSuitable_three_conditions [of gpu_no_swapchain]
  note t3 = isPhysicalDeviceSuitable_three_conditions [of "gpu_one_family\<lparr>surfacePresentModes := []\<rparr>"]
  note t4 = isPhysicalDeviceSuitable_three_conditions [of "gpu_one_family\<lparr>queueFamilyProperties := []\<rparr>"]
  have c1: "fst (isPhysicalDeviceSuitable gpu_one_family)"
    using t1 one ext(1) lists by blast
  have e1: "fst (checkDeviceExtensionSupport gpu_one_family)"
    using t1 c1 by blast
  have c2: "vkGetPhysicalDeviceSurfaceCapabilitiesKHR \<in> set (snd (isPhysicalDeviceSuitable gpu_one_family))"
    using t1 e1 by blast
  have c3: "\<not> fst (isPhysicalDeviceSuitable gpu_no_swapchain)"
    using t2 ext(2) by blast
  have e2: "\<not> fst (checkDeviceExtensionSupport gpu_no_swapchain)"
    by (simp add: checkDeviceExtensionSupport_def extensionsCovered_def gpu_no_swapchain_def
          DEVICE_EXTENSIONS_def VK_KHR_SWAPCHAIN_EXTENSION_NAME_def)
  have c4: "vkGetPhysicalDeviceSurfaceCapabilitiesKHR \<notin> set (snd (isPhysicalDeviceSuitable gpu_no_swapchain))"
    using t2 e2 by blast
  have c5: "\<not> fst (isPhysicalDeviceSuitable (gpu_one_family\<lparr>surfacePresentModes := []\<rparr>))"
    using t3 by simp
  have c6: "\<not> fst (isPhysicalDeviceSuitable (gpu_one_family\<lparr>queueFamilyProperties := []\<rparr>))"
    using t4 incomplete by blast
  from c1 c2 complete c3 c4 c5 c6 show ?thesis by blast
qed

section \<open>Selection of the physical device\<close>

lemma selectPhysicalDevice_loop_first:
  assumes "\<forall>d \<in> set before. \<not> fst (isPhysicalDeviceSuitable d)"
      and "fst (isPhysicalDeviceSuitable device)"
  shows "selectPhysicalDevice_loop (before @ device # after) = Some device"
  using assms by (induction before) auto

lemma selectPhysicalDevice_loop_none:
  "selectPhysicalDevice_loop devices = None \<longleftrightarrow> (\<forall>d \<in> set devices. \<not> fst (isPhysicalDeviceSuitable d))"
  by (induction devices) auto

lemma selectPhysicalDevice_loop_Some:
  "selectPhysicalDevice_loop devices = Some device \<Longrightarrow>
     device \<in> set devices \<and> fst (isPhysicalDeviceSuitable device)"
  by (induction devices) (auto split: if_splits)

text \<open>
  Claim C5. \<open>selectPhysicalDevice\<close> throws \<open>NoGPUError\<close> when no device is enumerated;
  it stores the first device of the enumeration that is suitable, whatever follows it;
  and it throws \<open>NoSuitableDeviceError\<close> when devices are enumerated and none is suitable.
\<close>

theorem selectPhysicalDevice_first_suitable:
  "(physicalDevices env = [] \<longrightarrow> selectPhysicalDevice env app = (Some NoGPUError, app))
   \<and> (physicalDevices env = before @ device # after
        \<and> (\<forall>d \<in> set before. \<not> fst (isPhysicalDeviceSuitable d))
        \<and> fst (isPhysicalDeviceSuitable device) \<longrightarrow>
        selectPhysicalDevice env app = (None, app\<lparr>m_physicalDevice := Some device\<rparr>))
   \<and> (physicalDevices env \<noteq> []
        \<and> (\<forall>d \<in> set (physicalDevices env). \<not> fst (isPhysicalDeviceSuitable d)) \<longrightarrow>
        selectPhysicalDevice env app = (Some NoSuitableDeviceError, app))"
proof (intro conjI impI)
  assume "physicalDevices env = []"
  then show "selectPhysicalDevice env app = (Some NoGPUError, app)"
    by (simp add: selectPhysicalDevice_def)
next
  assume a: "physicalDevices env = before @ device # after
        \<and> (\<forall>d \<in> set before. \<not> fst (isPhysicalDeviceSuitable d))
        \<and> fst (isPhysicalDeviceSuitable device)"
  then have "selectPhysicalDevice_loop (physicalDevices env) = Some device"
    by (simp add: selectPhysicalDevice_loop_first)
  with a show "selectPhysicalDevice env app = (None, app\<lparr>m_physicalDevice := Some device\<rparr>)"
    by (simp add: selectPhysicalDevice_def)
next
  assume a: "physicalDevices env \<noteq> []
        \<and> (\<forall>d \<in> set (physicalDevices env). \<not> fst (isPhysicalDeviceSuitable d))"
  then have "selectPhysicalDevice_loop (physicalDevices env) = None"
    by (simp add: selectPhysicalDevice_loop_none)
  with a show "selectPhysicalDevice env app = (Some NoSuitableDeviceError, app)"
    by (simp add: selectPhysicalDevice_def)
qed

theorem selectPhysicalDevice_first_suitable_witness:
  "selectPhysicalDevice env_ok App_init = (None, App_init\<lparr>m_physicalDevice := Some gpu_one_family\<rparr>)
   \<and> selectPhysicalDevice (env_ok\<lparr>physicalDevices := []\<rparr>) App_init = (Some NoGPUError, App_init)
   \<and> selectPhysicalDevice (env_ok\<lparr>physicalDevices := [gpu_no_swapchain, gpu_no_swapchain]\<rparr>) App_init
       = (Some NoSuitableDeviceError, App_init)"
  using selectPhysicalDevice_first_suitable
          [of env_ok App_init "[gpu_no_swapchain]" gpu_one_family "[gpu_graphics_graphics_present]"]
        selectPhysicalDevice_first_suitable
          [of "env_ok\<lparr>physicalDevices := []\<rparr>" App_init "[]" gpu_one_family "[]"]
        selectPhysicalDevice_first_suitable
          [of "env_ok\<lparr>physicalDevices := [gpu_no_swapchain, gpu_no_swapchain]\<rparr>"
              App_init "[]" gpu_one_family "[]"]
        suitable_gpu_one_family unsuitable_gpu_no_swapchain
  by (simp add: env_ok_def)

section \<open>The scan of the queue families\<close>

lemma ex_interval_first:
  assumes "i \<le> m"
  shows "(\<exists>a. i \<le> a \<and> a \<le> m \<and> P a) \<longleftrightarrow> P i \<or> (\<exists>a. Suc i \<le> a \<and> a \<le> m \<and> P a)"
proof
  assume "\<exists>a. i \<le> a \<and> a \<le> m \<and> P a"
  then obtain a where a: "i \<le> a" "a \<le> m" "P a" by blast
  show "P i \<or> (\<exists>a. Suc i \<le> a \<and> a \<le> m \<and> P a)"
  proof (cases "a = i")
    case True
    with a show ?thesis by simp
  next
    case False
    with a have "Suc i \<le> a" by simp
    with a show ?thesis by blast
  qed
next
  assume "P i \<or> (\<exists>a. Suc i \<le> a \<and> a \<le> m \<and> P a)"
  then show "\<exists>a. i \<le> a \<and> a \<le> m \<and> P a"
  proof
    assume "P i"
    with assms show ?thesis by blast
  next
    assume "\<exists>a. Suc i \<le> a \<and> a \<le> m \<and> P a"
    then obtain a where "Suc i \<le> a" "a \<le> m" "P a" by blast
    then have "i \<le> a \<and> a \<le> m \<and> P a" by simp
    then show ?thesis by blast
  qed
qed

lemma last_index_extend:
  assumes "(\<exists>g. Suc i \<le> g \<and> g \<le> n \<and> P g \<and> (\<forall>j. g < j \<and> j \<le> n \<longrightarrow> \<not> P j) \<and> res = Some (F g))
           \<or> ((\<forall>j. Suc i \<le> j \<and> j \<le> n \<longrightarrow> \<not> P j) \<and> res = (if P i then Some (F i) else old))"
      and "i \<le> n"
  shows "(\<exists>g. i \<le> g \<and> g \<le> n \<and> P g \<and> (\<forall>j. g < j \<and> j \<le> n \<longrightarrow> \<not> P j) \<and> res = Some (F g))
         \<or> ((\<forall>j. i \<le> j \<and> j \<le> n \<longrightarrow> \<not> P j) \<and> res = old)"
  using assms(1)
proof
  assume "\<exists>g. Suc i \<le> g \<and> g \<le> n \<and> P g \<and> (\<forall>j. g < j \<and> j \<le> n \<longrightarrow> \<not> P j) \<and> res = Some (F g)"
  then obtain g where g: "Suc i \<le> g" "g \<le> n" "P g" "\<forall>j. g < j \<and> j \<le> n \<longrightarrow> \<not> P j" "res = Some (F g)"
    by blast
  from g(1) have "i \<le> g" by simp
  with g show ?thesis by blast
next
  assume a: "(\<forall>j. Suc i \<le> j \<and> j \<le> n \<longrightarrow> \<not> P j) \<and> res = (if P i then Some (F i) else old)"
  show ?thesis
  proof (cases "P i")
    case True
    have "\<forall>j. i < j \<and> j \<le> n \<longrightarrow> \<not> P j"
      using a by (simp add: Suc_le_eq)
    with True a assms(2) show ?thesis by auto
  next
    case False
    have "\<forall>j. i \<le> j \<and> j \<le> n \<longrightarrow> \<not> P j"
    proof (intro allI impI)
      fix j assume j: "i \<le> j \<and> j \<le> n"
      show "\<not> P j"
      proof (cases "j = i")
        case True
        with False show ?thesis by simp
      next
        case False
        with j have "Suc i \<le> j" by simp
        with a j show ?thesis by blast
      qed
    qed
    with False a show ?thesis by simp
  qed
qed

lemma last_index_single:
  "(\<exists>g. (i::nat) \<le> g \<and> g \<le> i \<and> P g \<and> (\<forall>j. g < j \<and> j \<le> i \<longrightarrow> \<not> P j)
       \<and> (if P i then Some (F i) else old) = Some (F g))
   \<or> ((\<forall>j. i \<le> j \<and> j \<le> i \<longrightarrow> \<not> P j) \<and> (if P i then Some (F i) else old) = old)"
proof (cases "P i")
  case True
  then have "i \<le> i \<and> i \<le> i \<and> P i \<and> (\<forall>j. i < j \<and> j \<le> i \<longrightarrow> \<not> P j)
       \<and> (if P i then Some (F i) else old) = Some (F i)" by auto
  then show ?thesis by blast
next
  case False
  then have "\<forall>j. i \<le> j \<and> j \<le> i \<longrightarrow> \<not> P j"
    by (auto dest: le_antisym)
  with False show ?thesis by simp
qed


text \<open>
  The loop, started at index \<open>i\<close> on the families from \<open>i\<close> on, where \<open>gfx\<close> tells which
  absolute indices have graphics: if \<open>n\<close> is the first index at which both fields are set,
  the loop visits exactly the indices \<open>i..n\<close>, and each field holds the last index up to
  \<open>n\<close> with that capability (or its old value, if there is none).
\<close>

lemma findQueueFamilies_loop_stops:
  assumes "\<forall>j < length families. hasGraphics (families ! j) = gfx (i + j)"
      and "i \<le> n" and "n < i + length families"
      and "\<forall>m. i \<le> m \<and> m < n \<longrightarrow>
             \<not> ((graphicsFamily indices \<noteq> None \<or> (\<exists>a. i \<le> a \<and> a \<le> m \<and> gfx a))
                \<and> (presentFamily indices \<noteq> None \<or> (\<exists>b. i \<le> b \<and> b \<le> m \<and> support (of_nat b))))"
      and "(graphicsFamily indices \<noteq> None \<or> (\<exists>a. i \<le> a \<and> a \<le> n \<and> gfx a))
           \<and> (presentFamily indices \<noteq> None \<or> (\<exists>b. i \<le> b \<and> b \<le> n \<and> support (of_nat b)))"
  shows "\<exists>r. findQueueFamilies_loop support i families indices calls
               = (r, calls @ map (\<lambda>j. vkGetPhysicalDeviceSurfaceSupportKHR (of_nat j)) [i..<Suc n])
           \<and> ((\<exists>g. i \<le> g \<and> g \<le> n \<and> gfx g \<and> (\<forall>j. g < j \<and> j \<le> n \<longrightarrow> \<not> gfx j)
                  \<and> graphicsFamily r = Some (of_nat g))
               \<or> ((\<forall>j. i \<le> j \<and> j \<le> n \<longrightarrow> \<not> gfx j) \<and> graphicsFamily r = graphicsFamily indices))
           \<and> ((\<exists>p. i \<le> p \<and> p \<le> n \<and> support (of_nat p)
                  \<and> (\<forall>j. p < j \<and> j \<le> n \<longrightarrow> \<not> support (of_nat j))
                  \<and> presentFamily r = Some (of_nat p))
               \<or> ((\<forall>j. i \<le> j \<and> j \<le> n \<longrightarrow> \<not> support (of_nat j))
                  \<and> presentFamily r = presentFamily indices))"
  using assms
proof (induction families arbitrary: i indices calls)
  case Nil
  then show ?case by simp
next
  case (Cons queueFamily rest)
  define indices2 where "indices2 =
    (if support (of_nat i)
     then (if hasGraphics queueFamily then indices\<lparr>graphicsFamily := Some (of_nat i)\<rparr> else indices)
            \<lparr>presentFamily := Some (of_nat i)\<rparr>
     else (if hasGraphics queueFamily then indices\<lparr>graphicsFamily := Some (of_nat i)\<rparr> else indices))"
  define calls1 where "calls1 = calls @ [vkGetPhysicalDeviceSurfaceSupportKHR (of_nat i)]"
  have head: "hasGraphics queueFamily = gfx i"
    using Cons.prems(1) by auto
  have g2: "graphicsFamily indices2 = (if gfx i then Some (of_nat i) else graphicsFamily indices)"
    and p2: "presentFamily indices2
               = (if support (of_nat i) then Some (of_nat i) else presentFamily indices)"
    by (simp_all add: indices2_def head)
  have c2: "isComplete indices2 \<longleftrightarrow>
      (graphicsFamily indices \<noteq> None \<or> gfx i) \<and> (presentFamily indices \<noteq> None \<or> support (of_nat i))"
    by (auto simp: isComplete_def g2 p2)
  have unfold: "findQueueFamilies_loop support i (queueFamily # rest) indices calls =
      (if isComplete indices2 then (indices2, calls1)
       else findQueueFamilies_loop support (Suc i) rest indices2 calls1)"
    by (simp add: indices2_def calls1_def Let_def)
  have G_eq: "(graphicsFamily indices \<noteq> None \<or> (\<exists>a. i \<le> a \<and> a \<le> m \<and> gfx a))
      \<longleftrightarrow> (graphicsFamily indices2 \<noteq> None \<or> (\<exists>a. Suc i \<le> a \<and> a \<le> m \<and> gfx a))"
    if "i \<le> m" for m
    unfolding g2 ex_interval_first [OF that, of gfx] by auto
  have P_eq: "(presentFamily indices \<noteq> None \<or> (\<exists>b. i \<le> b \<and> b \<le> m \<and> support (of_nat b)))
      \<longleftrightarrow> (presentFamily indices2 \<noteq> None \<or> (\<exists>b. Suc i \<le> b \<and> b \<le> m \<and> support (of_nat b)))"
    if "i \<le> m" for m
    unfolding p2 ex_interval_first [OF that, of "\<lambda>b. support (of_nat b)"] by auto
  show ?case
  proof (cases "n = i")
    case True
    have "(graphicsFamily indices \<noteq> None \<or> (\<exists>a. i \<le> a \<and> a \<le> i \<and> gfx a))
           \<and> (presentFamily indices \<noteq> None \<or> (\<exists>b. i \<le> b \<and> b \<le> i \<and> support (of_nat b)))"
      using Cons.prems(5) unfolding True .
    then have complete: "isComplete indices2"
      unfolding c2 by (auto simp: le_antisym)
    have res: "findQueueFamilies_loop support i (queueFamily # rest) indices calls
        = (indices2, calls @ map (\<lambda>j. vkGetPhysicalDeviceSurfaceSupportKHR (of_nat j)) [i..<Suc n])"
      unfolding unfold True calls1_def using complete by simp
    have G: "(\<exists>g. i \<le> g \<and> g \<le> n \<and> gfx g \<and> (\<forall>j. g < j \<and> j \<le> n \<longrightarrow> \<not> gfx j)
                  \<and> graphicsFamily indices2 = Some (of_nat g))
             \<or> ((\<forall>j. i \<le> j \<and> j \<le> n \<longrightarrow> \<not> gfx j) \<and> graphicsFamily indices2 = graphicsFamily indices)"
      unfolding True g2 by (rule last_index_single)
    have P: "(\<exists>p. i \<le> p \<and> p \<le> n \<and> support (of_nat p)
                  \<and> (\<forall>j. p < j \<and> j \<le> n \<longrightarrow> \<not> support (of_nat j))
                  \<and> presentFamily indices2 = Some (of_nat p))
               \<or> ((\<forall>j. i \<le> j \<and> j \<le> n \<longrightarrow> \<not> support (of_nat j))
                  \<and> presentFamily indices2 = presentFamily indices)"
      unfolding True p2 by (rule last_index_single [of i "\<lambda>j. support (of_nat j)"])
    from res G P show ?thesis by blast
  next
    case False
    with Cons.prems(2) have lt: "i < n" and le: "Suc i \<le> n" by simp_all
    have "\<not> ((graphicsFamily indices \<noteq> None \<or> (\<exists>a. i \<le> a \<and> a \<le> i \<and> gfx a))
                \<and> (presentFamily indices \<noteq> None \<or> (\<exists>b. i \<le> b \<and> b \<le> i \<and> support (of_nat b))))"
      using Cons.prems(4) lt by blast
    then have incomplete: "\<not> isComplete indices2"
      unfolding c2 by blast
    have step: "findQueueFamilies_loop support i (queueFamily # rest) indices calls =
        findQueueFamilies_loop support (Suc i) rest indices2 calls1"
      unfolding unfold using incomplete by simp
    have fam: "\<forall>j < length rest. hasGraphics (rest ! j) = gfx (Suc i + j)"
      using Cons.prems(1) by fastforce
    have bound: "n < Suc i + length rest"
      using Cons.prems(3) by simp
    have before: "\<forall>m. Suc i \<le> m \<and> m < n \<longrightarrow>
             \<not> ((graphicsFamily indices2 \<noteq> None \<or> (\<exists>a. Suc i \<le> a \<and> a \<le> m \<and> gfx a))
                \<and> (presentFamily indices2 \<noteq> None \<or> (\<exists>b. Suc i \<le> b \<and> b \<le> m \<and> support (of_nat b))))"
    proof (intro allI impI)
      fix m assume m: "Suc i \<le> m \<and> m < n"
      then have im: "i \<le> m" by simp
      from m im Cons.prems(4)
      have "\<not> ((graphicsFamily indices \<noteq> None \<or> (\<exists>a. i \<le> a \<and> a \<le> m \<and> gfx a))
                \<and> (presentFamily indices \<noteq> None \<or> (\<exists>b. i \<le> b \<and> b \<le> m \<and> support (of_nat b))))"
        by blast
      then show "\<not> ((graphicsFamily indices2 \<noteq> None \<or> (\<exists>a. Suc i \<le> a \<and> a \<le> m \<and> gfx a))
                \<and> (presentFamily indices2 \<noteq> None \<or> (\<exists>b. Suc i \<le> b \<and> b \<le> m \<and> support (of_nat b))))"
        unfolding G_eq [OF im] P_eq [OF im] .
    qed
    have at: "(graphicsFamily indices2 \<noteq> None \<or> (\<exists>a. Suc i \<le> a \<and> a \<le> n \<and> gfx a))
           \<and> (presentFamily indices2 \<noteq> None \<or> (\<exists>b. Suc i \<le> b \<and> b \<le> n \<and> support (of_nat b)))"
      using Cons.prems(5) unfolding G_eq [OF Cons.prems(2)] P_eq [OF Cons.prems(2)] .
    from Cons.IH [OF fam le bound before at, of calls1]
    obtain r where r: "findQueueFamilies_loop support (Suc i) rest indices2 calls1
               = (r, calls1 @ map (\<lambda>j. vkGetPhysicalDeviceSurfaceSupportKHR (of_nat j)) [Suc i..<Suc n])"
      and G2: "(\<exists>g. Suc i \<le> g \<and> g \<le> n \<and> gfx g \<and> (\<forall>j. g < j \<and> j \<le> n \<longrightarrow> \<not> gfx j)
                  \<and> graphicsFamily r = Some (of_nat g))
               \<or> ((\<forall>j. Suc i \<le> j \<and> j \<le> n \<longrightarrow> \<not> gfx j) \<and> graphicsFamily r = graphicsFamily indices2)"
      and P2: "(\<exists>p. Suc i \<le> p \<and> p \<le> n \<and> support (of_nat p)
                  \<and> (\<forall>j. p < j \<and> j \<le> n \<longrightarrow> \<not> support (of_nat j))
                  \<and> presentFamily r = Some (of_nat p))
               \<or> ((\<forall>j. Suc i \<le> j \<and> j \<le> n \<longrightarrow> \<not> support (of_nat j))
                  \<and> presentFamily r = presentFamily indices2)"
      by blast
    have calls: "calls1 @ map (\<lambda>j. vkGetPhysicalDeviceSurfaceSupportKHR (of_nat j)) [Suc i..<Suc n]
        = calls @ map (\<lambda>j. vkGetPhysicalDeviceSurfaceSupportKHR (of_nat j)) [i..<Suc n]"
      using Cons.prems(2) by (simp add: calls1_def upt_conv_Cons del: upt_Suc)
    have res: "findQueueFamilies_loop support i (queueFamily # rest) indices calls
        = (r, calls @ map (\<lambda>j. vkGetPhysicalDeviceSurfaceSupportKHR (of_nat j)) [i..<Suc n])"
      unfolding step r calls ..
    have G: "(\<exists>g. i \<le> g \<and> g \<le> n \<and> gfx g \<and> (\<forall>j. g < j \<and> j \<le> n \<longrightarrow> \<not> gfx j)
                  \<and> graphicsFamily r = Some (of_nat g))
             \<or> ((\<forall>j. i \<le> j \<and> j \<le> n \<longrightarrow> \<not> gfx j) \<and> graphicsFamily r = graphicsFamily indices)"
      using G2 Cons.prems(2) unfolding g2 by (rule last_index_extend)
    have P: "(\<exists>p. i \<le> p \<and> p \<le> n \<and> support (of_nat p)
                  \<and> (\<forall>j. p < j \<and> j \<le> n \<longrightarrow> \<not> support (of_nat j))
                  \<and> presentFamily r = Some (of_nat p))
               \<or> ((\<forall>j. i \<le> j \<and> j \<le> n \<longrightarrow> \<not> support (of_nat j))
                  \<and> presentFamily r = presentFamily indices)"
      using P2 Cons.prems(2) unfolding p2
      by (rule last_index_extend [of i n "\<lambda>j. support (of_nat j)"])
    from res G P show ?thesis by blast
  qed
qed


lemma last_index_unique:
  assumes "(g::nat) \<le> n" "P g" "\<forall>j. g < j \<and> j \<le> n \<longrightarrow> \<not> P j"
      and "g' \<le> n" "P g'" "\<forall>j. g' < j \<and> j \<le> n \<longrightarrow> \<not> P j"
  shows "g' = g"
proof (rule ccontr)
  assume "g' \<noteq> g"
  then consider "g' < g" | "g < g'" by linarith
  then show False
  proof cases
    case 1
    with assms(1,2,6) show False by blast
  next
    case 2
    with assms(3,4,5) show False by blast
  qed
qed

text \<open>
  A device with both kinds of family: \<open>fg\<close> and \<open>fp\<close> are the first indices of each kind,
  \<open>g\<close> and \<open>p\<close> the last indices of each kind up to \<open>max fg fp\<close>.
\<close>

lemma findQueueFamilies_both_kinds:
  assumes "length (queueFamilyProperties device) < 2 ^ 31"
      and "fg < length (queueFamilyProperties device)"
      and "hasGraphics (queueFamilyProperties device ! fg)"
      and "\<forall>j < fg. \<not> hasGraphics (queueFamilyProperties device ! j)"
      and "fp < length (queueFamilyProperties device)"
      and "surfaceSupport device (of_nat fp)"
      and "\<forall>j < fp. \<not> surfaceSupport device (of_nat j)"
      and "g \<le> max fg fp"
      and "hasGraphics (queueFamilyProperties device ! g)"
      and "\<forall>j. g < j \<and> j \<le> max fg fp \<longrightarrow> \<not> hasGraphics (queueFamilyProperties device ! j)"
      and "p \<le> max fg fp"
      and "surfaceSupport device (of_nat p)"
      and "\<forall>j. p < j \<and> j \<le> max fg fp \<longrightarrow> \<not> surfaceSupport device (of_nat j)"
  shows "findQueueFamilies device =
           (\<lparr>graphicsFamily = Some (of_nat g), presentFamily = Some (of_nat p)\<rparr>,
            [vkGetPhysicalDeviceQueueFamilyProperties, vkGetPhysicalDeviceQueueFamilyProperties]
            @ map (\<lambda>j. vkGetPhysicalDeviceSurfaceSupportKHR (of_nat j)) [0 ..< Suc (max fg fp)])
         \<and> unat (of_nat g :: uint32_t) = g \<and> unat (of_nat p :: uint32_t) = p
         \<and> (fg \<le> fp \<longrightarrow> p = fp) \<and> (fp \<le> fg \<longrightarrow> g = fg) \<and> (fg = fp \<longrightarrow> g = fg \<and> p = fp)"
proof -
  define families where "families = queueFamilyProperties device"
  define gfx where "gfx = (\<lambda>j. hasGraphics (families ! j))"
  define pres where "pres = (\<lambda>j. surfaceSupport device (of_nat j :: uint32_t))"
  define n where "n = max fg fp"
  define start where "start = \<lparr>graphicsFamily = None, presentFamily = None :: uint32_t option\<rparr>"
  have a: "length families < 2 ^ 31" "fg < length families" "gfx fg" "\<forall>j < fg. \<not> gfx j"
      "fp < length families" "pres fp" "\<forall>j < fp. \<not> pres j"
      "g \<le> n" "gfx g" "\<forall>j. g < j \<and> j \<le> n \<longrightarrow> \<not> gfx j"
      "p \<le> n" "pres p" "\<forall>j. p < j \<and> j \<le> n \<longrightarrow> \<not> pres j"
    using assms by (simp_all add: families_def gfx_def pres_def n_def)
  have fgn: "fg \<le> n" and fpn: "fp \<le> n" by (simp_all add: n_def)
  have nlen: "n < 0 + length families" using a(2,5) by (simp add: n_def)
  have fam: "\<forall>j < length families. hasGraphics (families ! j) = gfx (0 + j)"
    by (simp add: gfx_def)
  have before: "\<forall>m. 0 \<le> m \<and> m < n \<longrightarrow>
      \<not> ((graphicsFamily start \<noteq> None \<or> (\<exists>a. 0 \<le> a \<and> a \<le> m \<and> gfx a))
         \<and> (presentFamily start \<noteq> None \<or> (\<exists>b. 0 \<le> b \<and> b \<le> m \<and> surfaceSupport device (of_nat b))))"
  proof (intro allI impI)
    fix m assume "0 \<le> m \<and> m < n"
    then have "m < fg \<or> m < fp" by (auto simp: n_def)
    then have "(\<forall>a. a \<le> m \<longrightarrow> \<not> gfx a) \<or> (\<forall>b. b \<le> m \<longrightarrow> \<not> pres b)"
      using a(4,7) by (meson le_less_trans)
    then show "\<not> ((graphicsFamily start \<noteq> None \<or> (\<exists>a. 0 \<le> a \<and> a \<le> m \<and> gfx a))
         \<and> (presentFamily start \<noteq> None \<or> (\<exists>b. 0 \<le> b \<and> b \<le> m \<and> surfaceSupport device (of_nat b))))"
      unfolding pres_def start_def by auto
  qed
  have at: "(graphicsFamily start \<noteq> None \<or> (\<exists>a. 0 \<le> a \<and> a \<le> n \<and> gfx a))
         \<and> (presentFamily start \<noteq> None \<or> (\<exists>b. 0 \<le> b \<and> b \<le> n \<and> surfaceSupport device (of_nat b)))"
    using a(3,6) fgn fpn unfolding pres_def by blast
  have P_pres: "\<And>j. surfaceSupport device (of_nat j) = pres j" by (simp add: pres_def)
  from findQueueFamilies_loop_stops [OF fam le0 nlen before at,
         of "[vkGetPhysicalDeviceQueueFamilyProperties, vkGetPhysicalDeviceQueueFamilyProperties]"]
  obtain r where r: "findQueueFamilies_loop (surfaceSupport device) 0 families start
               [vkGetPhysicalDeviceQueueFamilyProperties, vkGetPhysicalDeviceQueueFamilyProperties]
       = (r, [vkGetPhysicalDeviceQueueFamilyProperties, vkGetPhysicalDeviceQueueFamilyProperties]
             @ map (\<lambda>j. vkGetPhysicalDeviceSurfaceSupportKHR (of_nat j)) [0..<Suc n])"
    and G: "(\<exists>g. 0 \<le> g \<and> g \<le> n \<and> gfx g \<and> (\<forall>j. g < j \<and> j \<le> n \<longrightarrow> \<not> gfx j)
                  \<and> graphicsFamily r = Some (of_nat g))
               \<or> ((\<forall>j. 0 \<le> j \<and> j \<le> n \<longrightarrow> \<not> gfx j) \<and> graphicsFamily r = graphicsFamily start)"
    and P: "(\<exists>p. 0 \<le> p \<and> p \<le> n \<and> surfaceSupport device (of_nat p)
                  \<and> (\<forall>j. p < j \<and> j \<le> n \<longrightarrow> \<not> surfaceSupport device (of_nat j))
                  \<and> presentFamily r = Some (of_nat p))
               \<or> ((\<forall>j. 0 \<le> j \<and> j \<le> n \<longrightarrow> \<not> surfaceSupport device (of_nat j))
                  \<and> presentFamily r = presentFamily start)"
    by blast
  from G a(3) fgn obtain g' where g': "g' \<le> n" "gfx g'" "\<forall>j. g' < j \<and> j \<le> n \<longrightarrow> \<not> gfx j"
      "graphicsFamily r = Some (of_nat g')"
    by blast
  from P a(6) fpn obtain p' where p': "p' \<le> n" "pres p'" "\<forall>j. p' < j \<and> j \<le> n \<longrightarrow> \<not> pres j"
      "presentFamily r = Some (of_nat p')"
    unfolding P_pres by blast
  have "g' = g" using a(8,9,10) g'(1,2,3) by (rule last_index_unique)
  moreover have "p' = p" using a(11,12,13) p'(1,2,3) by (rule last_index_unique)
  ultimately have "r = \<lparr>graphicsFamily = Some (of_nat g), presentFamily = Some (of_nat p)\<rparr>"
    using g'(4) p'(4) by (cases r) simp
  with r have result: "findQueueFamilies device =
           (\<lparr>graphicsFamily = Some (of_nat g), presentFamily = Some (of_nat p)\<rparr>,
            [vkGetPhysicalDeviceQueueFamilyProperties, vkGetPhysicalDeviceQueueFamilyProperties]
            @ map (\<lambda>j. vkGetPhysicalDeviceSurfaceSupportKHR (of_nat j)) [0 ..< Suc (max fg fp)])"
    by (simp add: findQueueFamilies_def families_def start_def n_def)
  have "g < 2 ^ 32" "p < 2 ^ 32"
    using a(8,11) nlen a(1) by simp_all
  then have small: "unat (of_nat g :: uint32_t) = g" "unat (of_nat p :: uint32_t) = p"
    by (simp_all add: unat_of_nat)
  have first_p: "p = fp" if "fg \<le> fp"
  proof -
    from that have "n = fp" by (simp add: n_def)
    with a(11) have "p \<le> fp" by simp
    moreover have "\<not> p < fp" using a(7,12) by auto
    ultimately show ?thesis by simp
  qed
  have first_g: "g = fg" if "fp \<le> fg"
  proof -
    from that have "n = fg" by (simp add: n_def)
    with a(8) have "g \<le> fg" by simp
    moreover have "\<not> g < fg" using a(4,9) by auto
    ultimately show ?thesis by simp
  qed
  from result small first_p first_g show ?thesis by simp
qed


lemma findQueueFamilies_gpu_graphics_graphics_present:
  "findQueueFamilies gpu_graphics_graphics_present =
     (\<lparr>graphicsFamily = Some 1, presentFamily = Some 2\<rparr>,
      [vkGetPhysicalDeviceQueueFamilyProperties, vkGetPhysicalDeviceQueueFamilyProperties,
       vkGetPhysicalDeviceSurfaceSupportKHR 0, vkGetPhysicalDeviceSurfaceSupportKHR 1,
       vkGetPhysicalDeviceSurfaceSupportKHR 2])"
  by (simp add: findQueueFamilies_def gpu_graphics_graphics_present_def hasGraphics_def
        VK_QUEUE_GRAPHICS_BIT_def isComplete_def)

theorem findQueueFamilies_not_first_graphics_counterexample:
  "hasGraphics (queueFamilyProperties gpu_graphics_graphics_present ! 0)
   \<and> graphicsFamily (fst (findQueueFamilies gpu_graphics_graphics_present)) = Some 1
   \<and> graphicsFamily (fst (findQueueFamilies gpu_graphics_graphics_present)) \<noteq> Some 0"
  by (simp add: findQueueFamilies_gpu_graphics_graphics_present)
     (simp add: gpu_graphics_graphics_present_def hasGraphics_def VK_QUEUE_GRAPHICS_BIT_def)

section \<open>The scan of a device that lacks a kind of family\<close>

lemma last_index_extend_open:
  assumes "(\<exists>g. Suc i \<le> g \<and> g < e \<and> P g \<and> (\<forall>j. g < j \<and> j < e \<longrightarrow> \<not> P j) \<and> res = Some (F g))
           \<or> ((\<forall>j. Suc i \<le> j \<and> j < e \<longrightarrow> \<not> P j) \<and> res = (if P i then Some (F i) else old))"
      and "i < e"
  shows "(\<exists>g. i \<le> g \<and> g < e \<and> P g \<and> (\<forall>j. g < j \<and> j < e \<longrightarrow> \<not> P j) \<and> res = Some (F g))
         \<or> ((\<forall>j. i \<le> j \<and> j < e \<longrightarrow> \<not> P j) \<and> res = old)"
proof -
  from assms(2) obtain n where e: "e = Suc n" and n: "i \<le> n"
    by (cases e) auto
  show ?thesis
    using assms(1) n unfolding e less_Suc_eq_le by (rule last_index_extend)
qed

text \<open>
  The loop on families among which the two fields are never both set: it visits every
  family, and each field holds the last index with that capability, or its old value.
\<close>

lemma findQueueFamilies_loop_exhausts:
  assumes "\<forall>j < length families. hasGraphics (families ! j) = gfx (i + j)"
      and "\<forall>m. i \<le> m \<and> m < i + length families \<longrightarrow>
             \<not> ((graphicsFamily indices \<noteq> None \<or> (\<exists>a. i \<le> a \<and> a \<le> m \<and> gfx a))
                \<and> (presentFamily indices \<noteq> None \<or> (\<exists>b. i \<le> b \<and> b \<le> m \<and> support (of_nat b))))"
  shows "\<exists>r. findQueueFamilies_loop support i families indices calls
               = (r, calls @ map (\<lambda>j. vkGetPhysicalDeviceSurfaceSupportKHR (of_nat j))
                              [i ..< i + length families])
           \<and> ((\<exists>g. i \<le> g \<and> g < i + length families \<and> gfx g
                  \<and> (\<forall>j. g < j \<and> j < i + length families \<longrightarrow> \<not> gfx j)
                  \<and> graphicsFamily r = Some (of_nat g))
               \<or> ((\<forall>j. i \<le> j \<and> j < i + length families \<longrightarrow> \<not> gfx j)
                  \<and> graphicsFamily r = graphicsFamily indices))
           \<and> ((\<exists>p. i \<le> p \<and> p < i + length families \<and> support (of_nat p)
                  \<and> (\<forall>j. p < j \<and> j < i + length families \<longrightarrow> \<not> support (of_nat j))
                  \<and> presentFamily r = Some (of_nat p))
               \<or> ((\<forall>j. i \<le> j \<and> j < i + length families \<longrightarrow> \<not> support (of_nat j))
                  \<and> presentFamily r = presentFamily indices))"
  using assms
proof (induction families arbitrary: i indices calls)
  case Nil
  show ?case by auto
next
  case (Cons queueFamily rest)
  define e where "e = Suc i + length rest"
  have e': "i + length (queueFamily # rest) = e" and ie: "i < e"
    by (simp_all add: e_def)
  define indices2 where "indices2 =
    (if support (of_nat i)
     then (if hasGraphics queueFamily then indices\<lparr>graphicsFamily := Some (of_nat i)\<rparr> else indices)
            \<lparr>presentFamily := Some (of_nat i)\<rparr>
     else (if hasGraphics queueFamily then indices\<lparr>graphicsFamily := Some (of_nat i)\<rparr> else indices))"
  define calls1 where "calls1 = calls @ [vkGetPhysicalDeviceSurfaceSupportKHR (of_nat i)]"
  have head: "hasGraphics queueFamily = gfx i"
    using Cons.prems(1) by auto
  have g2: "graphicsFamily indices2 = (if gfx i then Some (of_nat i) else graphicsFamily indices)"
    and p2: "presentFamily indices2
               = (if support (of_nat i) then Some (of_nat i) else presentFamily indices)"
    by (simp_all add: indices2_def head)
  have c2: "isComplete indices2 \<longleftrightarrow>
      (graphicsFamily indices \<noteq> None \<or> gfx i) \<and> (presentFamily indices \<noteq> None \<or> support (of_nat i))"
    by (auto simp: isComplete_def g2 p2)
  have unfold: "findQueueFamilies_loop support i (queueFamily # rest) indices calls =
      (if isComplete indices2 then (indices2, calls1)
       else findQueueFamilies_loop support (Suc i) rest indices2 calls1)"
    by (simp add: indices2_def calls1_def Let_def)
  have G_eq: "(graphicsFamily indices \<noteq> None \<or> (\<exists>a. i \<le> a \<and> a \<le> m \<and> gfx a))
      \<longleftrightarrow> (graphicsFamily indices2 \<noteq> None \<or> (\<exists>a. Suc i \<le> a \<and> a \<le> m \<and> gfx a))"
    if "i \<le> m" for m
    unfolding g2 ex_interval_first [OF that, of gfx] by auto
  have P_eq: "(presentFamily indices \<noteq> None \<or> (\<exists>b. i \<le> b \<and> b \<le> m \<and> support (of_nat b)))
      \<longleftrightarrow> (presentFamily indices2 \<noteq> None \<or> (\<exists>b. Suc i \<le> b \<and> b \<le> m \<and> support (of_nat b)))"
    if "i \<le> m" for m
    unfolding p2 ex_interval_first [OF that, of "\<lambda>b. support (of_nat b)"] by auto
  note never = Cons.prems(2) [unfolded e']
  have "\<not> ((graphicsFamily indices \<noteq> None \<or> (\<exists>a. i \<le> a \<and> a \<le> i \<and> gfx a))
                \<and> (presentFamily indices \<noteq> None \<or> (\<exists>b. i \<le> b \<and> b \<le> i \<and> support (of_nat b))))"
    using never ie by blast
  then have incomplete: "\<not> isComplete indices2"
    unfolding c2 by blast
  have step: "findQueueFamilies_loop support i (queueFamily # rest) indices calls =
      findQueueFamilies_loop support (Suc i) rest indices2 calls1"
    unfolding unfold using incomplete by simp
  have fam: "\<forall>j < length rest. hasGraphics (rest ! j) = gfx (Suc i + j)"
    using Cons.prems(1) by fastforce
  have never2: "\<forall>m. Suc i \<le> m \<and> m < Suc i + length rest \<longrightarrow>
             \<not> ((graphicsFamily indices2 \<noteq> None \<or> (\<exists>a. Suc i \<le> a \<and> a \<le> m \<and> gfx a))
                \<and> (presentFamily indices2 \<noteq> None \<or> (\<exists>b. Suc i \<le> b \<and> b \<le> m \<and> support (of_nat b))))"
  proof (intro allI impI)
    fix m assume m: "Suc i \<le> m \<and> m < Suc i + length rest"
    then have im: "i \<le> m" by simp
    from m im never
    have "\<not> ((graphicsFamily indices \<noteq> None \<or> (\<exists>a. i \<le> a \<and> a \<le> m \<and> gfx a))
                \<and> (presentFamily indices \<noteq> None \<or> (\<exists>b. i \<le> b \<and> b \<le> m \<and> support (of_nat b))))"
      unfolding e_def by blast
    then show "\<not> ((graphicsFamily indices2 \<noteq> None \<or> (\<exists>a. Suc i \<le> a \<and> a \<le> m \<and> gfx a))
                \<and> (presentFamily indices2 \<noteq> None \<or> (\<exists>b. Suc i \<le> b \<and> b \<le> m \<and> support (of_nat b))))"
      unfolding G_eq [OF im] P_eq [OF im] .
  qed
  from Cons.IH [OF fam never2, of calls1, folded e_def]
  obtain r where r: "findQueueFamilies_loop support (Suc i) rest indices2 calls1
               = (r, calls1 @ map (\<lambda>j. vkGetPhysicalDeviceSurfaceSupportKHR (of_nat j)) [Suc i ..< e])"
    and G2: "(\<exists>g. Suc i \<le> g \<and> g < e \<and> gfx g \<and> (\<forall>j. g < j \<and> j < e \<longrightarrow> \<not> gfx j)
                  \<and> graphicsFamily r = Some (of_nat g))
               \<or> ((\<forall>j. Suc i \<le> j \<and> j < e \<longrightarrow> \<not> gfx j) \<and> graphicsFamily r = graphicsFamily indices2)"
    and P2: "(\<exists>p. Suc i \<le> p \<and> p < e \<and> support (of_nat p)
                  \<and> (\<forall>j. p < j \<and> j < e \<longrightarrow> \<not> support (of_nat j))
                  \<and> presentFamily r = Some (of_nat p))
               \<or> ((\<forall>j. Suc i \<le> j \<and> j < e \<longrightarrow> \<not> support (of_nat j))
                  \<and> presentFamily r = presentFamily indices2)"
    by blast
  have calls: "calls1 @ map (\<lambda>j. vkGetPhysicalDeviceSurfaceSupportKHR (of_nat j)) [Suc i ..< e]
        = calls @ map (\<lambda>j. vkGetPhysicalDeviceSurfaceSupportKHR (of_nat j)) [i ..< e]"
    using ie by (simp add: calls1_def upt_conv_Cons)
  have res: "findQueueFamilies_loop support i (queueFamily # rest) indices calls
        = (r, calls @ map (\<lambda>j. vkGetPhysicalDeviceSurfaceSupportKHR (of_nat j)) [i ..< e])"
    unfolding step r calls ..
  have G: "(\<exists>g. i \<le> g \<and> g < e \<and> gfx g \<and> (\<forall>j. g < j \<and> j < e \<longrightarrow> \<not> gfx j)
                  \<and> graphicsFamily r = Some (of_nat g))
             \<or> ((\<forall>j. i \<le> j \<and> j < e \<longrightarrow> \<not> gfx j) \<and> graphicsFamily r = graphicsFamily indices)"
    using G2 ie unfolding g2 by (rule last_index_extend_open)
  have P: "(\<exists>p. i \<le> p \<and> p < e \<and> support (of_nat p)
                  \<and> (\<forall>j. p < j \<and> j < e \<longrightarrow> \<not> support (of_nat j))
                  \<and> presentFamily r = Some (of_nat p))
               \<or> ((\<forall>j. i \<le> j \<and> j < e \<longrightarrow> \<not> support (of_nat j))
                  \<and> presentFamily r = presentFamily indices)"
    using P2 ie unfolding p2
    by (rule last_index_extend_open [of i e "\<lambda>j. support (of_nat j)"])
  from res G P show ?case unfolding e' by blast
qed


lemma last_index_unique_open:
  assumes "(g::nat) < e" "P g" "\<forall>j. g < j \<and> j < e \<longrightarrow> \<not> P j"
      and "g' < e" "P g'" "\<forall>j. g' < j \<and> j < e \<longrightarrow> \<not> P j"
  shows "g' = g"
proof (rule ccontr)
  assume "g' \<noteq> g"
  then consider "g' < g" | "g < g'" by linarith
  then show False
  proof cases
    case 1
    with assms(1,2,6) show False by blast
  next
    case 2
    with assms(3,4,5) show False by blast
  qed
qed

text \<open>
  A device without a family with graphics, or without a family with present support:
  every family is queried, and each field is the last index of its kind, if any.
\<close>

lemma findQueueFamilies_kind_missing:
  assumes "(\<forall>j < length (queueFamilyProperties device). \<not> hasGraphics (queueFamilyProperties device ! j))
           \<or> (\<forall>j < length (queueFamilyProperties device). \<not> surfaceSupport device (of_nat j))"
  shows "snd (findQueueFamilies device) =
           [vkGetPhysicalDeviceQueueFamilyProperties, vkGetPhysicalDeviceQueueFamilyProperties]
           @ map (\<lambda>j. vkGetPhysicalDeviceSurfaceSupportKHR (of_nat j))
               [0 ..< length (queueFamilyProperties device)]"
    and "(\<forall>j < length (queueFamilyProperties device). \<not> hasGraphics (queueFamilyProperties device ! j))
         \<longrightarrow> graphicsFamily (fst (findQueueFamilies device)) = None"
    and "lg < length (queueFamilyProperties device) \<and> hasGraphics (queueFamilyProperties device ! lg)
         \<and> (\<forall>j. lg < j \<and> j < length (queueFamilyProperties device)
               \<longrightarrow> \<not> hasGraphics (queueFamilyProperties device ! j))
         \<longrightarrow> graphicsFamily (fst (findQueueFamilies device)) = Some (of_nat lg)"
    and "(\<forall>j < length (queueFamilyProperties device). \<not> surfaceSupport device (of_nat j))
         \<longrightarrow> presentFamily (fst (findQueueFamilies device)) = None"
    and "lp < length (queueFamilyProperties device) \<and> surfaceSupport device (of_nat lp)
         \<and> (\<forall>j. lp < j \<and> j < length (queueFamilyProperties device)
               \<longrightarrow> \<not> surfaceSupport device (of_nat j))
         \<longrightarrow> presentFamily (fst (findQueueFamilies device)) = Some (of_nat lp)"
proof -
  define families where "families = queueFamilyProperties device"
  define gfx where "gfx = (\<lambda>j. hasGraphics (families ! j))"
  define pres where "pres = (\<lambda>j. surfaceSupport device (of_nat j :: uint32_t))"
  define e where "e = length families"
  define start where "start = \<lparr>graphicsFamily = None, presentFamily = None :: uint32_t option\<rparr>"
  have missing: "(\<forall>j < e. \<not> gfx j) \<or> (\<forall>j < e. \<not> pres j)"
    using assms by (simp add: families_def gfx_def pres_def e_def)
  have P_pres: "\<And>j. surfaceSupport device (of_nat j) = pres j" by (simp add: pres_def)
  have fam: "\<forall>j < length families. hasGraphics (families ! j) = gfx (0 + j)"
    by (simp add: gfx_def)
  have never: "\<forall>m. 0 \<le> m \<and> m < 0 + length families \<longrightarrow>
      \<not> ((graphicsFamily start \<noteq> None \<or> (\<exists>a. 0 \<le> a \<and> a \<le> m \<and> gfx a))
         \<and> (presentFamily start \<noteq> None \<or> (\<exists>b. 0 \<le> b \<and> b \<le> m \<and> surfaceSupport device (of_nat b))))"
  proof (intro allI impI)
    fix m assume "0 \<le> m \<and> m < 0 + length families"
    then have "m < e" by (simp add: e_def)
    with missing have "(\<forall>a. a \<le> m \<longrightarrow> \<not> gfx a) \<or> (\<forall>b. b \<le> m \<longrightarrow> \<not> pres b)"
      by (meson le_less_trans)
    then show "\<not> ((graphicsFamily start \<noteq> None \<or> (\<exists>a. 0 \<le> a \<and> a \<le> m \<and> gfx a))
         \<and> (presentFamily start \<noteq> None \<or> (\<exists>b. 0 \<le> b \<and> b \<le> m \<and> surfaceSupport device (of_nat b))))"
      unfolding P_pres start_def by auto
  qed
  from findQueueFamilies_loop_exhausts [OF fam never,
         of "[vkGetPhysicalDeviceQueueFamilyProperties, vkGetPhysicalDeviceQueueFamilyProperties]"]
  obtain r where r: "findQueueFamilies_loop (surfaceSupport device) 0 families start
               [vkGetPhysicalDeviceQueueFamilyProperties, vkGetPhysicalDeviceQueueFamilyProperties]
       = (r, [vkGetPhysicalDeviceQueueFamilyProperties, vkGetPhysicalDeviceQueueFamilyProperties]
             @ map (\<lambda>j. vkGetPhysicalDeviceSurfaceSupportKHR (of_nat j)) [0 ..< e])"
    and G: "(\<exists>g. 0 \<le> g \<and> g < e \<and> gfx g \<and> (\<forall>j. g < j \<and> j < e \<longrightarrow> \<not> gfx j)
                  \<and> graphicsFamily r = Some (of_nat g))
               \<or> ((\<forall>j. 0 \<le> j \<and> j < e \<longrightarrow> \<not> gfx j) \<and> graphicsFamily r = graphicsFamily start)"
    and P: "(\<exists>p. 0 \<le> p \<and> p < e \<and> pres p \<and> (\<forall>j. p < j \<and> j < e \<longrightarrow> \<not> pres j)
                  \<and> presentFamily r = Some (of_nat p))
               \<or> ((\<forall>j. 0 \<le> j \<and> j < e \<longrightarrow> \<not> pres j) \<and> presentFamily r = presentFamily start)"
    unfolding P_pres e_def by auto
  have run: "findQueueFamilies device =
       (r, [vkGetPhysicalDeviceQueueFamilyProperties, vkGetPhysicalDeviceQueueFamilyProperties]
             @ map (\<lambda>j. vkGetPhysicalDeviceSurfaceSupportKHR (of_nat j)) [0 ..< e])"
    using r by (simp add: findQueueFamilies_def families_def start_def)
  have g_none: "graphicsFamily r = None" if "\<forall>j < e. \<not> gfx j"
    using G that by (auto simp: start_def)
  have g_last: "graphicsFamily r = Some (of_nat lg)"
    if "lg < e" "gfx lg" "\<forall>j. lg < j \<and> j < e \<longrightarrow> \<not> gfx j"
  proof -
    from G that(1,2) obtain g where g: "g < e" "gfx g" "\<forall>j. g < j \<and> j < e \<longrightarrow> \<not> gfx j"
      "graphicsFamily r = Some (of_nat g)"
      by blast
    have "g = lg" using that g(1,2,3) by (rule last_index_unique_open)
    with g(4) show ?thesis by simp
  qed
  have p_none: "presentFamily r = None" if "\<forall>j < e. \<not> pres j"
    using P that by (auto simp: start_def)
  have p_last: "presentFamily r = Some (of_nat lp)"
    if "lp < e" "pres lp" "\<forall>j. lp < j \<and> j < e \<longrightarrow> \<not> pres j"
  proof -
    from P that(1,2) obtain p where p: "p < e" "pres p" "\<forall>j. p < j \<and> j < e \<longrightarrow> \<not> pres j"
      "presentFamily r = Some (of_nat p)"
      by blast
    have "p = lp" using that p(1,2,3) by (rule last_index_unique_open)
    with p(4) show ?thesis by simp
  qed
  show "snd (findQueueFamilies device) =
           [vkGetPhysicalDeviceQueueFamilyProperties, vkGetPhysicalDeviceQueueFamilyProperties]
           @ map (\<lambda>j. vkGetPhysicalDeviceSurfaceSupportKHR (of_nat j))
               [0 ..< length (queueFamilyProperties device)]"
    using run by (simp add: e_def families_def)
  show "(\<forall>j < length (queueFamilyProperties device). \<not> hasGraphics (queueFamilyProperties device ! j))
         \<longrightarrow> graphicsFamily (fst (findQueueFamilies device)) = None"
    using g_none run by (simp add: e_def families_def gfx_def)
  show "lg < length (queueFamilyProperties device) \<and> hasGraphics (queueFamilyProperties device ! lg)
         \<and> (\<forall>j. lg < j \<and> j < length (queueFamilyProperties device)
               \<longrightarrow> \<not> hasGraphics (queueFamilyProperties device ! j))
         \<longrightarrow> graphicsFamily (fst (findQueueFamilies device)) = Some (of_nat lg)"
    using g_last run by (simp add: e_def families_def gfx_def)
  show "(\<forall>j < length (queueFamilyProperties device). \<not> surfaceSupport device (of_nat j))
         \<longrightarrow> presentFamily (fst (findQueueFamilies device)) = None"
    using p_none run by (simp add: e_def families_def pres_def)
  show "lp < length (queueFamilyProperties device) \<and> surfaceSupport device (of_nat lp)
         \<and> (\<forall>j. lp < j \<and> j < length (queueFamilyProperties device)
               \<longrightarrow> \<not> surfaceSupport device (of_nat j))
         \<longrightarrow> presentFamily (fst (findQueueFamilies device)) = Some (of_nat lp)"
    using p_last run by (simp add: e_def families_def pres_def)
qed


text \<open>
  Claim C1, as the code has it, for every device with fewer than \<open>2 ^ 31\<close> queue families
  (the range of the counter \<open>int i\<close>, in which every index is stored unchanged).

  If the device has both kinds of family, let \<open>fg\<close> be the first family with graphics and
  \<open>fp\<close> the first family with present support. The scan queries present support for the
  indices \<open>0\<close> to \<open>max fg fp\<close> and for no other: it stops at the first index at which
  both kinds have been seen. It returns as \<open>graphicsFamily\<close> the last index up to there
  with graphics (\<open>g\<close>) and as \<open>presentFamily\<close> the last index up to there with present
  support (\<open>p\<close>), since a later family of the same kind overwrites an earlier one. The
  kind that is found last is therefore reported by its first index; when \<open>fg = fp\<close>, both
  returned indices equal it.

  If the device has no family with graphics, or none with present support, the scan
  queries every family; each field is then the last index of its kind in the whole list
  (\<open>lg\<close>, \<open>lp\<close>), and is absent when there is no family of that kind.
\<close>

theorem findQueueFamilies_last_seen_until_complete:
  assumes "length (queueFamilyProperties device) < 2 ^ 31"
  shows "(fg < length (queueFamilyProperties device)
          \<and> hasGraphics (queueFamilyProperties device ! fg)
          \<and> (\<forall>j < fg. \<not> hasGraphics (queueFamilyProperties device ! j))
          \<and> fp < length (queueFamilyProperties device)
          \<and> surfaceSupport device (of_nat fp)
          \<and> (\<forall>j < fp. \<not> surfaceSupport device (of_nat j))
          \<and> g \<le> max fg fp
          \<and> hasGraphics (queueFamilyProperties device ! g)
          \<and> (\<forall>j. g < j \<and> j \<le> max fg fp \<longrightarrow> \<not> hasGraphics (queueFamilyProperties device ! j))
          \<and> p \<le> max fg fp
          \<and> surfaceSupport device (of_nat p)
          \<and> (\<forall>j. p < j \<and> j \<le> max fg fp \<longrightarrow> \<not> surfaceSupport device (of_nat j))
          \<longrightarrow>
          findQueueFamilies device =
            (\<lparr>graphicsFamily = Some (of_nat g), presentFamily = Some (of_nat p)\<rparr>,
             [vkGetPhysicalDeviceQueueFamilyProperties, vkGetPhysicalDeviceQueueFamilyProperties]
             @ map (\<lambda>j. vkGetPhysicalDeviceSurfaceSupportKHR (of_nat j)) [0 ..< Suc (max fg fp)])
          \<and> unat (of_nat g :: uint32_t) = g \<and> unat (of_nat p :: uint32_t) = p
          \<and> (fg \<le> fp \<longrightarrow> p = fp) \<and> (fp \<le> fg \<longrightarrow> g = fg) \<and> (fg = fp \<longrightarrow> g = fg \<and> p = fp))
       \<and> ((\<forall>j < length (queueFamilyProperties device). \<not> hasGraphics (queueFamilyProperties device ! j))
            \<or> (\<forall>j < length (queueFamilyProperties device). \<not> surfaceSupport device (of_nat j))
          \<longrightarrow>
          snd (findQueueFamilies device) =
            [vkGetPhysicalDeviceQueueFamilyProperties, vkGetPhysicalDeviceQueueFamilyProperties]
            @ map (\<lambda>j. vkGetPhysicalDeviceSurfaceSupportKHR (of_nat j))
                [0 ..< length (queueFamilyProperties device)]
          \<and> ((\<forall>j < length (queueFamilyProperties device).
                 \<not> hasGraphics (queueFamilyProperties device ! j))
               \<longrightarrow> graphicsFamily (fst (findQueueFamilies device)) = None)
          \<and> (lg < length (queueFamilyProperties device)
               \<and> hasGraphics (queueFamilyProperties device ! lg)
               \<and> (\<forall>j. lg < j \<and> j < length (queueFamilyProperties device)
                     \<longrightarrow> \<not> hasGraphics (queueFamilyProperties device ! j))
               \<longrightarrow> graphicsFamily (fst (findQueueFamilies device)) = Some (of_nat lg))
          \<and> ((\<forall>j < length (queueFamilyProperties device). \<not> surfaceSupport device (of_nat j))
               \<longrightarrow> presentFamily (fst (findQueueFamilies device)) = None)
          \<and> (lp < length (queueFamilyProperties device)
               \<and> surfaceSupport device (of_nat lp)
               \<and> (\<forall>j. lp < j \<and> j < length (queueFamilyProperties device)
                     \<longrightarrow> \<not> surfaceSupport device (of_nat j))
               \<longrightarrow> presentFamily (fst (findQueueFamilies device)) = Some (of_nat lp)))
       \<and> (k < length (queueFamilyProperties device) \<longrightarrow> unat (of_nat k :: uint32_t) = k)"
proof (intro conjI)
  show "fg < length (queueFamilyProperties device)
          \<and> hasGraphics (queueFamilyProperties device ! fg)
          \<and> (\<forall>j < fg. \<not> hasGraphics (queueFamilyProperties device ! j))
          \<and> fp < length (queueFamilyProperties device)
          \<and> surfaceSupport device (of_nat fp)
          \<and> (\<forall>j < fp. \<not> surfaceSupport device (of_nat j))
          \<and> g \<le> max fg fp
          \<and> hasGraphics (queueFamilyProperties device ! g)
          \<and> (\<forall>j. g < j \<and> j \<le> max fg fp \<longrightarrow> \<not> hasGraphics (queueFamilyProperties device ! j))
          \<and> p \<le> max fg fp
          \<and> surfaceSupport device (of_nat p)
          \<and> (\<forall>j. p < j \<and> j \<le> max fg fp \<longrightarrow> \<not> surfaceSupport device (of_nat j))
          \<longrightarrow>
          findQueueFamilies device =
            (\<lparr>graphicsFamily = Some (of_nat g), presentFamily = Some (of_nat p)\<rparr>,
             [vkGetPhysicalDeviceQueueFamilyProperties, vkGetPhysicalDeviceQueueFamilyProperties]
             @ map (\<lambda>j. vkGetPhysicalDeviceSurfaceSupportKHR (of_nat j)) [0 ..< Suc (max fg fp)])
          \<and> unat (of_nat g :: uint32_t) = g \<and> unat (of_nat p :: uint32_t) = p
          \<and> (fg \<le> fp \<longrightarrow> p = fp) \<and> (fp \<le> fg \<longrightarrow> g = fg) \<and> (fg = fp \<longrightarrow> g = fg \<and> p = fp)"
    by (intro impI) (elim conjE, rule findQueueFamilies_both_kinds [OF assms]; assumption)
next
  show "(\<forall>j < length (queueFamilyProperties device). \<not> hasGraphics (queueFamilyProperties device ! j))
            \<or> (\<forall>j < length (queueFamilyProperties device). \<not> surfaceSupport device (of_nat j))
          \<longrightarrow>
          snd (findQueueFamilies device) =
            [vkGetPhysicalDeviceQueueFamilyProperties, vkGetPhysicalDeviceQueueFamilyProperties]
            @ map (\<lambda>j. vkGetPhysicalDeviceSurfaceSupportKHR (of_nat j))
                [0 ..< length (queueFamilyProperties device)]
          \<and> ((\<forall>j < length (queueFamilyProperties device).
                 \<not> hasGraphics (queueFamilyProperties device ! j))
               \<longrightarrow> graphicsFamily (fst (findQueueFamilies device)) = None)
          \<and> (lg < length (queueFamilyProperties device)
               \<and> hasGraphics (queueFamilyProperties device ! lg)
               \<and> (\<forall>j. lg < j \<and> j < length (queueFamilyProperties device)
                     \<longrightarrow> \<not> hasGraphics (queueFamilyProperties device ! j))
               \<longrightarrow> graphicsFamily (fst (findQueueFamilies device)) = Some (of_nat lg))
          \<and> ((\<forall>j < length (queueFamilyProperties device). \<not> surfaceSupport device (of_nat j))
               \<longrightarrow> presentFamily (fst (findQueueFamilies device)) = None)
          \<and> (lp < length (queueFamilyProperties device)
               \<and> surfaceSupport device (of_nat lp)
               \<and> (\<forall>j. lp < j \<and> j < length (queueFamilyProperties device)
                     \<longrightarrow> \<not> surfaceSupport device (of_nat j))
               \<longrightarrow> presentFamily (fst (findQueueFamilies device)) = Some (of_nat lp))"
  proof
    assume missing: "(\<forall>j < length (queueFamilyProperties device).
                        \<not> hasGraphics (queueFamilyProperties device ! j))
            \<or> (\<forall>j < length (queueFamilyProperties device). \<not> surfaceSupport device (of_nat j))"
    note scan = findQueueFamilies_kind_missing [OF missing]
    show "snd (findQueueFamilies device) =
            [vkGetPhysicalDeviceQueueFamilyProperties, vkGetPhysicalDeviceQueueFamilyProperties]
            @ map (\<lambda>j. vkGetPhysicalDeviceSurfaceSupportKHR (of_nat j))
                [0 ..< length (queueFamilyProperties device)]
          \<and> ((\<forall>j < length (queueFamilyProperties device).
                 \<not> hasGraphics (queueFamilyProperties device ! j))
               \<longrightarrow> graphicsFamily (fst (findQueueFamilies device)) = None)
          \<and> (lg < length (queueFamilyProperties device)
               \<and> hasGraphics (queueFamilyProperties device ! lg)
               \<and> (\<forall>j. lg < j \<and> j < length (queueFamilyProperties device)
                     \<longrightarrow> \<not> hasGraphics (queueFamilyProperties device ! j))
               \<longrightarrow> graphicsFamily (fst (findQueueFamilies device)) = Some (of_nat lg))
          \<and> ((\<forall>j < length (queueFamilyProperties device). \<not> surfaceSupport device (of_nat j))
               \<longrightarrow> presentFamily (fst (findQueueFamilies device)) = None)
          \<and> (lp < length (queueFamilyProperties device)
               \<and> surfaceSupport device (of_nat lp)
               \<and> (\<forall>j. lp < j \<and> j < length (queueFamilyProperties device)
                     \<longrightarrow> \<not> surfaceSupport device (of_nat j))
               \<longrightarrow> presentFamily (fst (findQueueFamilies device)) = Some (of_nat lp))"
      by (intro conjI) (rule scan)+
  qed
next
  show "k < length (queueFamilyProperties device) \<longrightarrow> unat (of_nat k :: uint32_t) = k"
  proof
    assume "k < length (queueFamilyProperties device)"
    with assms have "k < 2 ^ 32" by simp
    then show "unat (of_nat k :: uint32_t) = k"
      by (simp add: unat_of_nat)
  qed
qed

theorem findQueueFamilies_last_seen_until_complete_witness:
  "findQueueFamilies gpu_graphics_graphics_present =
     (\<lparr>graphicsFamily = Some 1, presentFamily = Some 2\<rparr>,
      [vkGetPhysicalDeviceQueueFamilyProperties, vkGetPhysicalDeviceQueueFamilyProperties,
       vkGetPhysicalDeviceSurfaceSupportKHR 0, vkGetPhysicalDeviceSurfaceSupportKHR 1,
       vkGetPhysicalDeviceSurfaceSupportKHR 2])
   \<and> findQueueFamilies (gpu_graphics_graphics_present\<lparr>surfaceSupport := (\<lambda>i. False)\<rparr>) =
     (\<lparr>graphicsFamily = Some 1, presentFamily = None\<rparr>,
      [vkGetPhysicalDeviceQueueFamilyProperties, vkGetPhysicalDeviceQueueFamilyProperties,
       vkGetPhysicalDeviceSurfaceSupportKHR 0, vkGetPhysicalDeviceSurfaceSupportKHR 1,
       vkGetPhysicalDeviceSurfaceSupportKHR 2])"
proof -
  let ?d = gpu_graphics_graphics_present
  let ?d2 = "gpu_graphics_graphics_present\<lparr>surfaceSupport := (\<lambda>i. False)\<rparr>"
  have len: "length (queueFamilyProperties ?d) < 2 ^ 31"
    "length (queueFamilyProperties ?d2) < 2 ^ 31"
    and fg: "0 < length (queueFamilyProperties ?d)" "hasGraphics (queueFamilyProperties ?d ! 0)"
      "\<forall>j < 0. \<not> hasGraphics (queueFamilyProperties ?d ! j)"
    and fp: "2 < length (queueFamilyProperties ?d)" "surfaceSupport ?d (of_nat 2)"
    and g: "1 \<le> max 0 (2::nat)" "hasGraphics (queueFamilyProperties ?d ! 1)"
    and p: "2 \<le> max 0 (2::nat)"
    by (simp_all add: gpu_graphics_graphics_present_def hasGraphics_def VK_QUEUE_GRAPHICS_BIT_def)
  have p3: "\<forall>j. 2 < j \<and> j \<le> max 0 2 \<longrightarrow> \<not> surfaceSupport ?d (of_nat j)"
    by auto
  have fp3: "\<forall>j < 2. \<not> surfaceSupport ?d (of_nat j)"
  proof (intro allI impI)
    fix j :: nat assume "j < 2"
    then have "j = 0 \<or> j = 1" by auto
    then show "\<not> surfaceSupport ?d (of_nat j)"
      by (auto simp: gpu_graphics_graphics_present_def)
  qed
  have g3: "\<forall>j. 1 < j \<and> j \<le> max 0 2 \<longrightarrow> \<not> hasGraphics (queueFamilyProperties ?d ! j)"
  proof (intro allI impI)
    fix j :: nat assume "1 < j \<and> j \<le> max 0 2"
    then have "j = 2" by auto
    then show "\<not> hasGraphics (queueFamilyProperties ?d ! j)"
      by (simp add: gpu_graphics_graphics_present_def hasGraphics_def VK_QUEUE_GRAPHICS_BIT_def)
  qed
  note both = findQueueFamilies_last_seen_until_complete
                [OF len(1), where fg = 0 and fp = 2 and g = 1 and p = 2]
  have first: "findQueueFamilies ?d =
     (\<lparr>graphicsFamily = Some 1, presentFamily = Some 2\<rparr>,
      [vkGetPhysicalDeviceQueueFamilyProperties, vkGetPhysicalDeviceQueueFamilyProperties,
       vkGetPhysicalDeviceSurfaceSupportKHR 0, vkGetPhysicalDeviceSurfaceSupportKHR 1,
       vkGetPhysicalDeviceSurfaceSupportKHR 2])"
    using both fg fp fp3 g g3 p p3 by (simp add: upt_rec)
  have none: "\<forall>j < length (queueFamilyProperties ?d2). \<not> surfaceSupport ?d2 (of_nat j)"
    by simp
  have lg: "1 < length (queueFamilyProperties ?d2)" "hasGraphics (queueFamilyProperties ?d2 ! 1)"
    by (simp_all add: gpu_graphics_graphics_present_def hasGraphics_def VK_QUEUE_GRAPHICS_BIT_def)
  have lg3: "\<forall>j. 1 < j \<and> j < length (queueFamilyProperties ?d2)
               \<longrightarrow> \<not> hasGraphics (queueFamilyProperties ?d2 ! j)"
  proof (intro allI impI)
    fix j :: nat assume "1 < j \<and> j < length (queueFamilyProperties ?d2)"
    then have "j = 2" by (auto simp: gpu_graphics_graphics_present_def)
    then show "\<not> hasGraphics (queueFamilyProperties ?d2 ! j)"
      by (simp add: gpu_graphics_graphics_present_def hasGraphics_def VK_QUEUE_GRAPHICS_BIT_def)
  qed
  note missing = findQueueFamilies_last_seen_until_complete [OF len(2), where lg = 1]
  from missing none lg lg3
  have calls: "snd (findQueueFamilies ?d2) =
      [vkGetPhysicalDeviceQueueFamilyProperties, vkGetPhysicalDeviceQueueFamilyProperties]
      @ map (\<lambda>j. vkGetPhysicalDeviceSurfaceSupportKHR (of_nat j))
          [0 ..< length (queueFamilyProperties ?d2)]"
    and gr: "graphicsFamily (fst (findQueueFamilies ?d2)) = Some (of_nat 1)"
    and pr: "presentFamily (fst (findQueueFamilies ?d2)) = None"
    by blast+
  obtain r l where rl: "findQueueFamilies ?d2 = (r, l)" by fastforce
  with gr pr have "r = \<lparr>graphicsFamily = Some 1, presentFamily = None\<rparr>"
    by (cases r) simp
  moreover have "l = [vkGetPhysicalDeviceQueueFamilyProperties, vkGetPhysicalDeviceQueueFamilyProperties,
       vkGetPhysicalDeviceSurfaceSupportKHR 0, vkGetPhysicalDeviceSurfaceSupportKHR 1,
       vkGetPhysicalDeviceSurfaceSupportKHR 2]"
    using calls rl by (simp add: gpu_graphics_graphics_present_def upt_rec)
  ultimately have second: "findQueueFamilies ?d2 =
     (\<lparr>graphicsFamily = Some 1, presentFamily = None\<rparr>,
      [vkGetPhysicalDeviceQueueFamilyProperties, vkGetPhysicalDeviceQueueFamilyProperties,
       vkGetPhysicalDeviceSurfaceSupportKHR 0, vkGetPhysicalDeviceSurfaceSupportKHR 1,
       vkGetPhysicalDeviceSurfaceSupportKHR 2])"
    using rl by simp
  from first second show ?thesis by simp
qed

section \<open>The optional indices after selection\<close>

lemma selectPhysicalDevice_stores_suitable:
  assumes "selectPhysicalDevice env app = (None, app')"
  shows "\<exists>device. app' = app\<lparr>m_physicalDevice := Some device\<rparr>
           \<and> device \<in> set (physicalDevices env) \<and> fst (isPhysicalDeviceSuitable device)"
  using assms
  by (auto simp: selectPhysicalDevice_def Let_def split: if_splits option.splits
        dest: selectPhysicalDevice_loop_Some)

lemma suitable_indices:
  assumes "fst (isPhysicalDeviceSuitable device)"
  obtains graphics present where
    "graphicsFamily (fst (findQueueFamilies device)) = Some graphics"
    "presentFamily (fst (findQueueFamilies device)) = Some present"
  using assms by (auto simp: isPhysicalDeviceSuitable_fst isComplete_def)

lemma querySwapChainSupport_fst:
  "fst (querySwapChainSupport device) =
     \<lparr>capabilities = surfaceCapabilities device, formats = surfaceFormats device,
      presentModes = surfacePresentModes device\<rparr>"
  by (simp add: querySwapChainSupport_def Let_def)

lemma suitable_format:
  assumes "fst (isPhysicalDeviceSuitable device)"
  obtains surfaceFormat where
    "selectSwapSurfaceFormat (formats (fst (querySwapChainSupport device))) = Inr surfaceFormat"
proof -
  from assms have "surfaceFormats device \<noteq> []"
    by (simp add: isPhysicalDeviceSuitable_fst)
  then have "\<exists>f. selectSwapSurfaceFormat (surfaceFormats device) = Inr f"
    by (cases "surfaceFormats device")
       (auto simp: selectSwapSurfaceFormat_def split: option.splits)
  then show ?thesis
    using that by (auto simp: querySwapChainSupport_fst)
qed

text \<open>
  Claim C10. If the device held in \<open>m_physicalDevice\<close> passed \<open>isPhysicalDeviceSuitable\<close>
  (the driver's answers for a device being fixed), the indices that
  \<open>createLogicalDevice\<close> and \<open>createSwapChain\<close> compute again have both fields present.
  Neither step can then end with \<open>bad_optional_access\<close>: each either succeeds or throws
  the error of its own driver call.
\<close>

theorem value_calls_succeed_for_suitable_device:
  assumes "fst (isPhysicalDeviceSuitable device)"
      and "m_physicalDevice app = Some device"
  shows "graphicsFamily (fst (findQueueFamilies device)) \<noteq> None
       \<and> presentFamily (fst (findQueueFamilies device)) \<noteq> None
       \<and> fst (createLogicalDevice env app) \<noteq> Some bad_optional_access
       \<and> fst (createSwapChain env app) \<noteq> Some bad_optional_access
       \<and> fst (createLogicalDevice env app)
           = (if vkCreateDevice env then None else Some DeviceCreationError)
       \<and> fst (createSwapChain env app)
           = (if vkCreateSwapchainKHR env then None else Some SwapchainCreationError)"
proof -
  from assms(1) obtain graphics present where
    idx: "graphicsFamily (fst (findQueueFamilies device)) = Some graphics"
      "presentFamily (fst (findQueueFamilies device)) = Some present"
    by (rule suitable_indices)
  from assms(1) obtain surfaceFormat where
    fmt: "selectSwapSurfaceFormat (formats (fst (querySwapChainSupport device))) = Inr surfaceFormat"
    by (rule suitable_format)
  have device: "fst (createLogicalDevice env app)
           = (if vkCreateDevice env then None else Some DeviceCreationError)"
    using assms(2) idx by (simp add: createLogicalDevice_def Let_def)
  obtain createInfo where "swapChainCreateInfo device (glfwGetWindowSize env) = Inr createInfo"
    using idx fmt by (simp add: swapChainCreateInfo_def Let_def)
  then have chain: "fst (createSwapChain env app)
           = (if vkCreateSwapchainKHR env then None else Some SwapchainCreationError)"
    using assms(2) by (simp add: createSwapChain_def)
  from idx device chain show ?thesis
    by (simp add: DeviceCreationError_def SwapchainCreationError_def)
qed

theorem value_calls_succeed_for_suitable_device_witness:
  "fst (createLogicalDevice env_ok (App_init\<lparr>m_physicalDevice := Some gpu_one_family\<rparr>)) = None
   \<and> fst (createSwapChain env_ok (App_init\<lparr>m_physicalDevice := Some gpu_one_family\<rparr>)) = None"
  using value_calls_succeed_for_suitable_device
          [of gpu_one_family "App_init\<lparr>m_physicalDevice := Some gpu_one_family\<rparr>" env_ok]
        suitable_gpu_one_family
  by (simp add: env_ok_def)

section \<open>What a run that fails leaves behind\<close>

lemma andThenE:
  assumes "andThen f g app = (r, app'')"
  obtains (failed) e where "f app = (Some e, app'')" "r = Some e"
        | (passed) app' where "f app = (None, app')" "g app' = (r, app'')"
  using assms by (auto simp: andThen_def split: prod.splits option.splits)

lemma createInstance_effect:
  assumes "createInstance env app = (r, app')"
  shows "app' = (if r = None then record_event (Created Instance) app else app)"
  using assms by (auto simp: createInstance_def split: if_splits)

lemma setupDebugMessenger_effect:
  assumes "setupDebugMessenger env app = (r, app')"
  shows "app' = (if r = None \<and> ENABLE_VALIDATION_LAYERS env
                 then record_event (Created DebugMessenger) app else app)"
  using assms by (auto simp: setupDebugMessenger_def split: if_splits)

lemma createSurface_effect:
  assumes "createSurface env app = (r, app')"
  shows "app' = (if r = None then record_event (Created Surface) app else app)"
  using assms by (auto simp: createSurface_def split: if_splits)

lemma selectPhysicalDevice_effect:
  assumes "selectPhysicalDevice env app = (r, app')"
  shows "events app' = events app \<and> m_swapChainImageViews app' = m_swapChainImageViews app"
  using assms by (auto simp: selectPhysicalDevice_def Let_def split: if_splits option.splits)

lemma createLogicalDevice_effect:
  assumes "createLogicalDevice env app = (r, app')"
  shows "app' = (if r = None then record_event (Created Device) app else app)"
  using assms by (auto simp: createLogicalDevice_def Let_def split: if_splits option.splits)

lemma createSwapChain_effect:
  assumes "createSwapChain env app = (r, app')"
  shows "events app' = events app @ (if r = None then [Created SwapChain] else [])
       \<and> m_swapChainImageViews app' = m_swapChainImageViews app
       \<and> (r = None \<longrightarrow> m_swapChainImages app' = [0 ..< swapchainImageCount env])"
  using assms
  by (auto simp: createSwapChain_def record_event_def split: if_splits option.splits sum.splits)

lemma createImageViews_loop_effect:
  assumes "createImageViews_loop create i images views evs = (r, views', evs')"
  shows "\<exists>k \<le> length images.
           evs' = evs @ map (\<lambda>j. Created (ImageView j)) [i ..< i + k]
           \<and> (r = None \<longrightarrow> k = length images)
           \<and> (r \<noteq> None \<longrightarrow> k < length images \<and> \<not> create (i + k))"
  using assms
proof (induction images arbitrary: i views evs)
  case Nil
  then show ?case by simp
next
  case (Cons swapChainImage rest)
  show ?case
  proof (cases "create i")
    case False
    with Cons.prems have "evs' = evs" "r \<noteq> None" by auto
    with False have "0 \<le> length (swapChainImage # rest)
           \<and> evs' = evs @ map (\<lambda>j. Created (ImageView j)) [i ..< i + 0]
           \<and> (r = None \<longrightarrow> 0 = length (swapChainImage # rest))
           \<and> (r \<noteq> None \<longrightarrow> 0 < length (swapChainImage # rest) \<and> \<not> create (i + 0))"
      by simp
    then show ?thesis by blast
  next
    case True
    with Cons.prems have "createImageViews_loop create (Suc i) rest (views[i := Some i])
             (evs @ [Created (ImageView i)]) = (r, views', evs')"
      by simp
    from Cons.IH [OF this] obtain k where k: "k \<le> length rest"
        "evs' = (evs @ [Created (ImageView i)]) @ map (\<lambda>j. Created (ImageView j)) [Suc i ..< Suc i + k]"
        "r = None \<longrightarrow> k = length rest"
        "r \<noteq> None \<longrightarrow> k < length rest \<and> \<not> create (Suc i + k)"
      by blast
    have "evs' = evs @ map (\<lambda>j. Created (ImageView j)) [i ..< i + Suc k]"
      using k(2) by (simp add: upt_conv_Cons del: upt_Suc)
    with k have "Suc k \<le> length (swapChainImage # rest)
           \<and> evs' = evs @ map (\<lambda>j. Created (ImageView j)) [i ..< i + Suc k]
           \<and> (r = None \<longrightarrow> Suc k = length (swapChainImage # rest))
           \<and> (r \<noteq> None \<longrightarrow> Suc k < length (swapChainImage # rest) \<and> \<not> create (i + Suc k))"
      by simp
    then show ?thesis by blast
  qed
qed

lemma createImageViews_effect:
  assumes "createImageViews env app = (r, app')"
  shows "\<exists>k \<le> length (m_swapChainImages app).
           events app' = events app @ map (\<lambda>j. Created (ImageView j)) [0 ..< k]
           \<and> (r = None \<longrightarrow> k = length (m_swapChainImages app))
           \<and> (r \<noteq> None \<longrightarrow> k < length (m_swapChainImages app)
                 \<and> m_swapChainImageViews app' = m_swapChainImageViews app)"
proof -
  obtain r0 views evs where loop:
    "createImageViews_loop (vkCreateImageView env) 0 (m_swapChainImages app)
       (replicate (length (m_swapChainImages app)) None) (events app) = (r0, views, evs)"
    by (metis prod_cases3)
  from createImageViews_loop_effect [OF loop] obtain k where k:
    "k \<le> length (m_swapChainImages app)"
    "evs = events app @ map (\<lambda>j. Created (ImageView j)) [0 ..< k]"
    "r0 = None \<longrightarrow> k = length (m_swapChainImages app)"
    "r0 \<noteq> None \<longrightarrow> k < length (m_swapChainImages app)"
    by auto
  from assms loop have "r = r0" "events app' = evs"
    "r \<noteq> None \<longrightarrow> m_swapChainImageViews app' = m_swapChainImageViews app"
    by (auto simp: createImageViews_def Let_def split: option.splits)
  with k show ?thesis by auto
qed


lemma record_event_fields:
  "events (record_event ev app) = events app @ [ev]"
  "m_swapChainImageViews (record_event ev app) = m_swapChainImageViews app"
  "m_swapChainImages (record_event ev app) = m_swapChainImages app"
  by (simp_all add: record_event_def)

lemma upt_split:
  assumes "k \<le> n"
  shows "map f [0 ..< k] @ map f [k ..< n] = map f [0 ..< n]"
proof -
  from assms obtain d where n: "n = k + d" by (auto simp: le_iff_add)
  have "[0 ..< k + d] = [0 ..< k] @ [k ..< k + d]"
    by (rule upt_add_eq_append) simp
  then show ?thesis unfolding n by (simp only: map_append)
qed

lemma andThen_passed:
  assumes "f app = (None, app')"
  shows "andThen f g app = g app'"
  using assms by (simp add: andThen_def)

lemma andThen_failed:
  assumes "f app = (r, app')" and "r \<noteq> None"
  shows "andThen f g app = (r, app')"
  using assms by (auto simp: andThen_def)

lemma created_prefix:
  assumes "events app' = events app @ map Created created"
      and "created @ rest = full"
      and "m_swapChainImageViews app' = m_swapChainImageViews app"
  shows "m_swapChainImageViews app' = m_swapChainImageViews app
       \<and> (\<exists>created rest. events app' = events app @ map Created created \<and> created @ rest = full)"
  using assms by blast

text \<open>
  When \<open>initVulkan\<close> throws, the object holds the events of the steps that succeeded, in
  creation order, and nothing else has changed in the fields that \<open>cleanup\<close> reads.
\<close>

lemma initVulkan_failure:
  assumes "initVulkan env app = (Some e, app')"
  shows "m_swapChainImageViews app' = m_swapChainImageViews app
       \<and> (\<exists>created rest.
             events app' = events app @ map Created created
             \<and> created @ rest =
                 [Instance] @ (if ENABLE_VALIDATION_LAYERS env then [DebugMessenger] else [])
                 @ [Surface, Device, SwapChain] @ map ImageView [0 ..< swapchainImageCount env])"
proof -
  let ?M = "if ENABLE_VALIDATION_LAYERS env then [DebugMessenger] else []"
  let ?V = "map ImageView [0 ..< swapchainImageCount env]"
  obtain r1 a1 where s1: "createInstance env app = (r1, a1)" by fastforce
  obtain r2 a2 where s2: "setupDebugMessenger env a1 = (r2, a2)" by fastforce
  obtain r3 a3 where s3: "createSurface env a2 = (r3, a3)" by fastforce
  obtain r4 a4 where s4: "selectPhysicalDevice env a3 = (r4, a4)" by fastforce
  obtain r5 a5 where s5: "createLogicalDevice env a4 = (r5, a5)" by fastforce
  obtain r6 a6 where s6: "createSwapChain env a5 = (r6, a6)" by fastforce
  obtain r7 a7 where s7: "createImageViews env a6 = (r7, a7)" by fastforce
  have e1: "events a1 = events app @ (if r1 = None then [Created Instance] else [])"
    and v1: "m_swapChainImageViews a1 = m_swapChainImageViews app"
    using createInstance_effect [OF s1] by (simp_all add: record_event_fields)
  have e2: "events a2 = events a1 @ (if r2 = None then map Created ?M else [])"
    and v2: "m_swapChainImageViews a2 = m_swapChainImageViews a1"
    using setupDebugMessenger_effect [OF s2] by (simp_all add: record_event_fields)
  have e3: "events a3 = events a2 @ (if r3 = None then [Created Surface] else [])"
    and v3: "m_swapChainImageViews a3 = m_swapChainImageViews a2"
    using createSurface_effect [OF s3] by (simp_all add: record_event_fields)
  have e4: "events a4 = events a3" and v4: "m_swapChainImageViews a4 = m_swapChainImageViews a3"
    using selectPhysicalDevice_effect [OF s4] by simp_all
  have e5: "events a5 = events a4 @ (if r5 = None then [Created Device] else [])"
    and v5: "m_swapChainImageViews a5 = m_swapChainImageViews a4"
    using createLogicalDevice_effect [OF s5] by (simp_all add: record_event_fields)
  have e6: "events a6 = events a5 @ (if r6 = None then [Created SwapChain] else [])"
    and v6: "m_swapChainImageViews a6 = m_swapChainImageViews a5"
    and i6: "r6 = None \<longrightarrow> m_swapChainImages a6 = [0 ..< swapchainImageCount env]"
    using createSwapChain_effect [OF s6] by simp_all
  from createImageViews_effect [OF s7] obtain k where k: "k \<le> length (m_swapChainImages a6)"
    and e7: "events a7 = events a6 @ map (\<lambda>j. Created (ImageView j)) [0 ..< k]"
    and v7: "r7 \<noteq> None \<longrightarrow> m_swapChainImageViews a7 = m_swapChainImageViews a6"
    by blast
  consider (1) "r1 \<noteq> None" | (2) "r1 = None" "r2 \<noteq> None" | (3) "r1 = None" "r2 = None" "r3 \<noteq> None"
    | (4) "r1 = None" "r2 = None" "r3 = None" "r4 \<noteq> None"
    | (5) "r1 = None" "r2 = None" "r3 = None" "r4 = None" "r5 \<noteq> None"
    | (6) "r1 = None" "r2 = None" "r3 = None" "r4 = None" "r5 = None" "r6 \<noteq> None"
    | (7) "r1 = None" "r2 = None" "r3 = None" "r4 = None" "r5 = None" "r6 = None"
    by blast
  then show ?thesis
  proof cases
    case 1
    from 1 obtain x where x: "r1 = Some x" by blast
    have "initVulkan env app = (r1, a1)"
      using s1 by (simp add: initVulkan_def andThen_def x)
    with assms have app': "app' = a1" by simp
    have ev: "events app' = events app @ map Created []"
      using 1 e1 app' by simp
    have full: "[] @ ([Instance] @ ?M @ [Surface, Device, SwapChain] @ ?V)
            = [Instance] @ ?M @ [Surface, Device, SwapChain] @ ?V"
      by simp
    have "m_swapChainImageViews app' = m_swapChainImageViews app"
      using app' v1 by simp
    with ev full show ?thesis by (rule created_prefix)
  next
    case 2
    from 2(2) obtain x where x: "r2 = Some x" by blast
    have "initVulkan env app = (r2, a2)"
      using s1 s2 by (simp add: initVulkan_def andThen_def x 2(1))
    with assms have app': "app' = a2" by simp
    have ev: "events app' = events app @ map Created [Instance]"
      using 2 e1 e2 app' by simp
    have full: "[Instance] @ (?M @ [Surface, Device, SwapChain] @ ?V)
            = [Instance] @ ?M @ [Surface, Device, SwapChain] @ ?V"
      by simp
    have "m_swapChainImageViews app' = m_swapChainImageViews app"
      using app' v1 v2 by simp
    with ev full show ?thesis by (rule created_prefix)
  next
    case 3
    from 3(3) obtain x where x: "r3 = Some x" by blast
    have "initVulkan env app = (r3, a3)"
      using s1 s2 s3 by (simp add: initVulkan_def andThen_def x 3(1,2))
    with assms have app': "app' = a3" by simp
    have ev: "events app' = events app @ map Created ([Instance] @ ?M)"
      using 3 e1 e2 e3 app' by simp
    have full: "([Instance] @ ?M) @ ([Surface, Device, SwapChain] @ ?V)
            = [Instance] @ ?M @ [Surface, Device, SwapChain] @ ?V"
      by simp
    have "m_swapChainImageViews app' = m_swapChainImageViews app"
      using app' v1 v2 v3 by simp
    with ev full show ?thesis by (rule created_prefix)
  next
    case 4
    from 4(4) obtain x where x: "r4 = Some x" by blast
    have "initVulkan env app = (r4, a4)"
      using s1 s2 s3 s4 by (simp add: initVulkan_def andThen_def x 4(1,2,3))
    with assms have app': "app' = a4" by simp
    have ev: "events app' = events app @ map Created ([Instance] @ ?M @ [Surface])"
      using 4 e1 e2 e3 e4 app' by simp
    have full: "([Instance] @ ?M @ [Surface]) @ ([Device, SwapChain] @ ?V)
            = [Instance] @ ?M @ [Surface, Device, SwapChain] @ ?V"
      by simp
    have "m_swapChainImageViews app' = m_swapChainImageViews app"
      using app' v1 v2 v3 v4 by simp
    with ev full show ?thesis by (rule created_prefix)
  next
    case 5
    from 5(5) obtain x where x: "r5 = Some x" by blast
    have "initVulkan env app = (r5, a5)"
      using s1 s2 s3 s4 s5 by (simp add: initVulkan_def andThen_def x 5(1,2,3,4))
    with assms have app': "app' = a5" by simp
    have ev: "events app' = events app @ map Created ([Instance] @ ?M @ [Surface])"
      using 5 e1 e2 e3 e4 e5 app' by simp
    have full: "([Instance] @ ?M @ [Surface]) @ ([Device, SwapChain] @ ?V)
            = [Instance] @ ?M @ [Surface, Device, SwapChain] @ ?V"
      by simp
    have "m_swapChainImageViews app' = m_swapChainImageViews app"
      using app' v1 v2 v3 v4 v5 by simp
    with ev full show ?thesis by (rule created_prefix)
  next
    case 6
    from 6(6) obtain x where x: "r6 = Some x" by blast
    have "initVulkan env app = (r6, a6)"
      using s1 s2 s3 s4 s5 s6 by (simp add: initVulkan_def andThen_def x 6(1,2,3,4,5))
    with assms have app': "app' = a6" by simp
    have ev: "events app' = events app @ map Created ([Instance] @ ?M @ [Surface, Device])"
      using 6 e1 e2 e3 e4 e5 e6 app' by simp
    have full: "([Instance] @ ?M @ [Surface, Device]) @ ([SwapChain] @ ?V)
            = [Instance] @ ?M @ [Surface, Device, SwapChain] @ ?V"
      by simp
    have "m_swapChainImageViews app' = m_swapChainImageViews app"
      using app' v1 v2 v3 v4 v5 v6 by simp
    with ev full show ?thesis by (rule created_prefix)
  next
    case 7
    have "initVulkan env app = (r7, a7)"
      using s1 s2 s3 s4 s5 s6 s7 by (simp add: initVulkan_def andThen_def 7)
    with assms have app': "app' = a7" and r7: "r7 \<noteq> None" by auto
    from 7 i6 k have kn: "k \<le> swapchainImageCount env" by simp
    have split: "map ImageView [0 ..< k] @ map ImageView [k ..< swapchainImageCount env] = ?V"
      using kn by (rule upt_split)
    have ev: "events app' = events app
        @ map Created ([Instance] @ ?M @ [Surface, Device, SwapChain] @ map ImageView [0 ..< k])"
      using 7 app' e1 e2 e3 e4 e5 e6 e7 by (simp add: comp_def)
    have full: "([Instance] @ ?M @ [Surface, Device, SwapChain] @ map ImageView [0 ..< k])
          @ map ImageView [k ..< swapchainImageCount env]
        = [Instance] @ ?M @ [Surface, Device, SwapChain] @ ?V"
      using split by simp
    have "m_swapChainImageViews app' = m_swapChainImageViews app"
      using app' r7 v7 v1 v2 v3 v4 v5 v6 by simp
    with ev full show ?thesis by (rule created_prefix)
  qed
qed


lemma run_before_initVulkan:
  assumes "glfwInit env"
  shows "andThen (createGLFWLibrary env) (andThen createWindow (initVulkan env)) App_init
         = initVulkan env (record_event (Created Window) (record_event (Created GLFWLibrary) App_init))"
  using assms by (simp add: andThen_def createGLFWLibrary_def createWindow_def)

lemma run_failure_is_initVulkan_failure:
  assumes "glfwInit env" and "run env = Some (Some e, app)"
  shows "initVulkan env (record_event (Created Window) (record_event (Created GLFWLibrary) App_init))
         = (Some e, app)"
  using assms(2) unfolding run_def run_before_initVulkan [OF assms(1)]
  by (auto split: prod.splits option.splits)

text \<open>
  Whatever makes \<open>run\<close> throw after GLFW has started, the events of the object are
  creations of a prefix of the creation order, and \<open>m_swapChainImageViews\<close> is empty.
\<close>

lemma run_failure_prefix:
  assumes "glfwInit env" and "run env = Some (Some e, app)"
  shows "(\<forall>r. Destroyed r \<notin> set (events app))
       \<and> m_swapChainImageViews app = []
       \<and> (\<exists>created rest.
             events app = map Created created
             \<and> created @ rest =
                 [GLFWLibrary, Window, Instance]
                 @ (if ENABLE_VALIDATION_LAYERS env then [DebugMessenger] else [])
                 @ [Surface, Device, SwapChain] @ map ImageView [0 ..< swapchainImageCount env])"
proof -
  let ?app0 = "record_event (Created Window) (record_event (Created GLFWLibrary) App_init)"
  let ?tail = "[Instance] @ (if ENABLE_VALIDATION_LAYERS env then [DebugMessenger] else [])
                 @ [Surface, Device, SwapChain] @ map ImageView [0 ..< swapchainImageCount env]"
  have start: "events ?app0 = map Created [GLFWLibrary, Window]" "m_swapChainImageViews ?app0 = []"
    by (simp_all add: record_event_fields App_init_def)
  from initVulkan_failure [OF run_failure_is_initVulkan_failure [OF assms]]
  obtain created rest where views: "m_swapChainImageViews app = m_swapChainImageViews ?app0"
    and ev: "events app = events ?app0 @ map Created created"
    and full: "created @ rest = ?tail"
    by blast
  have ev': "events app = map Created ([GLFWLibrary, Window] @ created)"
    using ev start(1) by simp
  have full': "([GLFWLibrary, Window] @ created) @ rest = [GLFWLibrary, Window, Instance]
                 @ (if ENABLE_VALIDATION_LAYERS env then [DebugMessenger] else [])
                 @ [Surface, Device, SwapChain] @ map ImageView [0 ..< swapchainImageCount env]"
    using full by simp
  have none: "\<forall>r. Destroyed r \<notin> set (events app)"
    unfolding ev' by auto
  have "m_swapChainImageViews app = []"
    using views start(2) by simp
  with none ev' full' show ?thesis by blast
qed

lemma gpu_one_family_surface:
  "surfaceCapabilities gpu_one_family = caps_1280x720"
  "surfaceFormats gpu_one_family = [\<lparr>format = 50, colorSpace = 0\<rparr>]"
  "surfacePresentModes gpu_one_family = [2]"
  by (simp_all add: gpu_one_family_def)

lemma swapChainCreateInfo_gpu_one_family:
  "swapChainCreateInfo gpu_one_family (800, 600) =
     Inr \<lparr>swapchain_minImageCount = 3, imageFormat = 50, imageColorSpace = 0,
          imageExtent = \<lparr>width = 800, height = 600\<rparr>,
          imageSharingMode = VK_SHARING_MODE_EXCLUSIVE, pQueueFamilyIndices = [],
          preTransform = 1, presentMode = 2\<rparr>"
  by (simp add: swapChainCreateInfo_def querySwapChainSupport_fst
        findQueueFamilies_gpu_one_family gpu_one_family_surface Let_def
        caps_1280x720_def selectSwapSurfaceFormat_def
        VK_FORMAT_B8G8R8A8_SRGB_def VK_COLOR_SPACE_SRGB_NONLINEAR_KHR_def
        VK_PRESENT_MODE_MAILBOX_KHR_def VK_PRESENT_MODE_FIFO_KHR_def
        selectSwapExtent_def std_clamp_def UINT32_MAX_def imageCount_def)

lemma initVulkan_env_view1_fails:
  "initVulkan env_view1_fails
     (record_event (Created Window) (record_event (Created GLFWLibrary) App_init))
   = (Some ImageViewCreationError, app_view1_failed)"
  by (simp add: initVulkan_def andThen_def createInstance_def setupDebugMessenger_def
        createSurface_def selectPhysicalDevice_def createLogicalDevice_def createSwapChain_def
        createImageViews_def env_view1_fails_def env_ok_def record_event_def App_init_def
        app_view1_failed_def checkValidationLayerSupport_def VALIDATION_LAYERS_def
        VK_LAYER_KHRONOS_validation_def suitable_gpu_one_family unsuitable_gpu_no_swapchain
        findQueueFamilies_gpu_one_family swapChainCreateInfo_gpu_one_family upt_rec)

lemma run_env_view1_fails:
  "run env_view1_fails = Some (Some ImageViewCreationError, app_view1_failed)"
proof -
  have "glfwInit env_view1_fails"
    by (simp add: env_view1_fails_def env_ok_def)
  then show ?thesis
    unfolding run_def
    by (simp add: run_before_initVulkan initVulkan_env_view1_fails)
qed

theorem run_failure_leaks_counterexample:
  "run env_view1_fails = Some (Some ImageViewCreationError, app_view1_failed)
   \<and> Created Instance \<in> set (events app_view1_failed)
   \<and> Destroyed Instance \<notin> set (events app_view1_failed)
   \<and> Created (ImageView 0) \<in> set (events app_view1_failed)
   \<and> Destroyed (ImageView 0) \<notin> set (events app_view1_failed)"
  by (simp add: run_env_view1_fails) (simp add: app_view1_failed_def)

section \<open>Teardown after a run without failure\<close>

lemma createImageViews_loop_views:
  assumes "createImageViews_loop create i images views evs = (None, views', evs')"
      and "length views = i + length images"
  shows "views' = take i views @ map Some [i ..< i + length images]"
  using assms
proof (induction images arbitrary: i views evs)
  case Nil
  then show ?case by simp
next
  case (Cons swapChainImage rest)
  from Cons.prems(1) have ok: "create i"
    by (auto split: if_splits)
  with Cons.prems(1) have loop: "createImageViews_loop create (Suc i) rest (views[i := Some i])
             (evs @ [Created (ImageView i)]) = (None, views', evs')"
    by simp
  have len: "length (views[i := Some i]) = Suc i + length rest"
    using Cons.prems(2) by simp
  have i: "i < length views"
    using Cons.prems(2) by simp
  have "take (Suc i) (views[i := Some i]) = take i views @ [Some i]"
    using i by (simp add: take_Suc_conv_app_nth)
  with Cons.IH [OF loop len]
  have "views' = (take i views @ [Some i]) @ map Some [Suc i ..< Suc i + length rest]"
    by simp
  then show ?case
    by (simp add: upt_conv_Cons del: upt_Suc)
qed

lemma createImageViews_success:
  assumes "createImageViews env app = (None, app')"
  shows "m_swapChainImageViews app' = map Some [0 ..< length (m_swapChainImages app)]"
proof -
  obtain r0 views evs where loop:
    "createImageViews_loop (vkCreateImageView env) 0 (m_swapChainImages app)
       (replicate (length (m_swapChainImages app)) None) (events app) = (r0, views, evs)"
    by (metis prod_cases3)
  with assms have r0: "r0 = None" and app': "m_swapChainImageViews app' = views"
    by (auto simp: createImageViews_def Let_def split: option.splits)
  from createImageViews_loop_views [OF loop [unfolded r0]]
  have "views = map Some [0 ..< length (m_swapChainImages app)]"
    by simp
  with app' show ?thesis by simp
qed

lemma destroyImageViews_all:
  "destroyImageViews (map Some views) = map (\<lambda>v. Destroyed (ImageView v)) views"
  by (induction views) simp_all

lemma initVulkan_success:
  assumes "initVulkan env app = (None, app')"
  shows "m_swapChainImageViews app' = map Some [0 ..< swapchainImageCount env]
       \<and> events app' = events app
           @ map Created ([Instance] @ (if ENABLE_VALIDATION_LAYERS env then [DebugMessenger] else [])
                          @ [Surface, Device, SwapChain]
                          @ map ImageView [0 ..< swapchainImageCount env])"
proof -
  from assms obtain a1 where s1: "createInstance env app = (None, a1)"
    and c1: "andThen (setupDebugMessenger env) (andThen (createSurface env)
              (andThen (selectPhysicalDevice env) (andThen (createLogicalDevice env)
              (andThen (createSwapChain env) (createImageViews env))))) a1 = (None, app')"
    unfolding initVulkan_def by (cases rule: andThenE) simp_all
  from c1 obtain a2 where s2: "setupDebugMessenger env a1 = (None, a2)"
    and c2: "andThen (createSurface env)
              (andThen (selectPhysicalDevice env) (andThen (createLogicalDevice env)
              (andThen (createSwapChain env) (createImageViews env)))) a2 = (None, app')"
    by (cases rule: andThenE) simp_all
  from c2 obtain a3 where s3: "createSurface env a2 = (None, a3)"
    and c3: "andThen (selectPhysicalDevice env) (andThen (createLogicalDevice env)
              (andThen (createSwapChain env) (createImageViews env))) a3 = (None, app')"
    by (cases rule: andThenE) simp_all
  from c3 obtain a4 where s4: "selectPhysicalDevice env a3 = (None, a4)"
    and c4: "andThen (createLogicalDevice env)
              (andThen (createSwapChain env) (createImageViews env)) a4 = (None, app')"
    by (cases rule: andThenE) simp_all
  from c4 obtain a5 where s5: "createLogicalDevice env a4 = (None, a5)"
    and c5: "andThen (createSwapChain env) (createImageViews env) a5 = (None, app')"
    by (cases rule: andThenE) simp_all
  from c5 obtain a6 where s6: "createSwapChain env a5 = (None, a6)"
    and s7: "createImageViews env a6 = (None, app')"
    by (cases rule: andThenE) simp_all
  have e1: "events a1 = events app @ [Created Instance]"
    using createInstance_effect [OF s1] by (simp add: record_event_fields)
  have e2: "events a2 = events a1
      @ map Created (if ENABLE_VALIDATION_LAYERS env then [DebugMessenger] else [])"
    using setupDebugMessenger_effect [OF s2] by (simp add: record_event_fields)
  have e3: "events a3 = events a2 @ [Created Surface]"
    using createSurface_effect [OF s3] by (simp add: record_event_fields)
  have e4: "events a4 = events a3"
    using selectPhysicalDevice_effect [OF s4] by simp
  have e5: "events a5 = events a4 @ [Created Device]"
    using createLogicalDevice_effect [OF s5] by (simp add: record_event_fields)
  have e6: "events a6 = events a5 @ [Created SwapChain]"
    and i6: "m_swapChainImages a6 = [0 ..< swapchainImageCount env]"
    using createSwapChain_effect [OF s6] by simp_all
  from createImageViews_effect [OF s7]
  have e7: "events app' = events a6
      @ map (\<lambda>j. Created (ImageView j)) [0 ..< swapchainImageCount env]"
    using i6 by auto
  have views: "m_swapChainImageViews app' = map Some [0 ..< swapchainImageCount env]"
    using createImageViews_success [OF s7] i6 by simp
  from e1 e2 e3 e4 e5 e6 e7 views show ?thesis
    by (simp add: comp_def)
qed

text \<open>
  When \<open>run\<close> returns, every step succeeded and the window closed: the events are the
  creations in order followed by the calls of \<open>cleanup\<close>, which destroys the image views in
  index order, then the swapchain, the device, the messenger (in a debug build whose
  instance resolves the destroy entry point), the surface, the instance, the window and
  GLFW, each once.
\<close>

lemma run_success_teardown:
  assumes "run env = Some (None, app)"
  shows "events app =
           map Created ([GLFWLibrary, Window, Instance]
                        @ (if ENABLE_VALIDATION_LAYERS env then [DebugMessenger] else [])
                        @ [Surface, Device, SwapChain]
                        @ map ImageView [0 ..< swapchainImageCount env])
           @ map Destroyed (map ImageView [0 ..< swapchainImageCount env]
                        @ [SwapChain, Device]
                        @ (if ENABLE_VALIDATION_LAYERS env \<and> vkDestroyDebugUtilsMessengerEXT env
                           then [DebugMessenger] else [])
                        @ [Surface, Instance, Window, GLFWLibrary])"
proof -
  let ?app0 = "record_event (Created Window) (record_event (Created GLFWLibrary) App_init)"
  have init: "glfwInit env"
  proof (rule ccontr)
    assume "\<not> glfwInit env"
    then have "run env = Some (Some InitializationError, record_event (Destroyed GLFWLibrary) App_init)"
      by (simp add: run_def andThen_def createGLFWLibrary_def)
    with assms show False by simp
  qed
  from assms obtain app1 where ok: "initVulkan env ?app0 = (None, app1)"
    and app: "app = cleanup env app1"
    unfolding run_def run_before_initVulkan [OF init]
    by (auto split: prod.splits option.splits)
  have start: "events ?app0 = map Created [GLFWLibrary, Window]"
    by (simp add: record_event_fields App_init_def)
  from initVulkan_success [OF ok] start
  have views: "m_swapChainImageViews app1 = map Some [0 ..< swapchainImageCount env]"
    and ev: "events app1 = map Created ([GLFWLibrary, Window, Instance]
                        @ (if ENABLE_VALIDATION_LAYERS env then [DebugMessenger] else [])
                        @ [Surface, Device, SwapChain]
                        @ map ImageView [0 ..< swapchainImageCount env])"
    by simp_all
  show ?thesis
    unfolding app cleanup_def
    by (simp add: views ev destroyImageViews_all comp_def)
qed

lemma mainLoop_stop:
  assumes "shouldClose polls"
  shows "mainLoop shouldClose polls = Some polls"
  using assms by (subst mainLoop.simps) simp

lemma mainLoop_poll:
  assumes "\<not> shouldClose polls"
  shows "mainLoop shouldClose polls = mainLoop shouldClose (Suc polls)"
  using assms by (subst mainLoop.simps) simp

lemma mainLoop_env_ok: "mainLoop (glfwWindowShouldClose env_ok) 0 = Some 2"
proof -
  have "mainLoop (\<lambda>n. 2 \<le> n) 0 = mainLoop (\<lambda>n. 2 \<le> n) (Suc 0)"
    by (rule mainLoop_poll) simp
  also have "\<dots> = mainLoop (\<lambda>n. 2 \<le> n) (Suc (Suc 0))"
    by (rule mainLoop_poll) simp
  also have "\<dots> = Some (Suc (Suc 0))"
    by (rule mainLoop_stop) simp
  finally show ?thesis by (simp add: env_ok_def)
qed

lemma run_env_ok_returns: "\<exists>app. run env_ok = Some (None, app)"
proof -
  have "initVulkan env_ok
     (record_event (Created Window) (record_event (Created GLFWLibrary) App_init))
   = (None, app_view1_failed\<lparr>m_swapChainImageViews := [Some 0, Some 1, Some 2],
        events := events app_view1_failed @ [Created (ImageView 1), Created (ImageView 2)]\<rparr>)"
    by (simp add: initVulkan_def andThen_def createInstance_def setupDebugMessenger_def
        createSurface_def selectPhysicalDevice_def createLogicalDevice_def createSwapChain_def
        createImageViews_def env_ok_def record_event_def App_init_def
        app_view1_failed_def checkValidationLayerSupport_def VALIDATION_LAYERS_def
        VK_LAYER_KHRONOS_validation_def suitable_gpu_one_family unsuitable_gpu_no_swapchain
        findQueueFamilies_gpu_one_family swapChainCreateInfo_gpu_one_family upt_rec)
  moreover have "glfwInit env_ok" by (simp add: env_ok_def)
  ultimately show ?thesis
    unfolding run_def by (simp add: run_before_initVulkan mainLoop_env_ok)
qed

section \<open>The exception and the events of each failing step\<close>

lemmas run_steps =
  run_def andThen_def createGLFWLibrary_def createWindow_def initVulkan_def createInstance_def
  setupDebugMessenger_def createSurface_def selectPhysicalDevice_def createLogicalDevice_def
  createSwapChain_def record_event_def App_init_def Let_def

lemma run_fails_at_layers:
  assumes "glfwInit env" and "ENABLE_VALIDATION_LAYERS env"
      and "\<not> checkValidationLayerSupport (instanceLayerProperties env)"
  shows "\<exists>app. run env = Some (Some UnsupportedLayerError, app)
           \<and> events app = map Created [GLFWLibrary, Window]
           \<and> m_swapChainImageViews app = []"
  using assms by (simp add: run_steps)

lemma run_fails_at_instance:
  assumes "glfwInit env"
      and "ENABLE_VALIDATION_LAYERS env \<longrightarrow> checkValidationLayerSupport (instanceLayerProperties env)"
      and "\<not> vkCreateInstance env"
  shows "\<exists>app. run env = Some (Some InstantiationError, app)
           \<and> events app = map Created [GLFWLibrary, Window]
           \<and> m_swapChainImageViews app = []"
  using assms by (cases "ENABLE_VALIDATION_LAYERS env") (simp_all add: run_steps)

lemma run_fails_at_messenger:
  assumes "glfwInit env"
      and "ENABLE_VALIDATION_LAYERS env \<longrightarrow> checkValidationLayerSupport (instanceLayerProperties env)"
      and "vkCreateInstance env"
      and "ENABLE_VALIDATION_LAYERS env" and "vkCreateDebugUtilsMessengerEXT env \<noteq> Some True"
  shows "\<exists>app. run env = Some (Some DiagnosticInstallError, app)
           \<and> events app = map Created [GLFWLibrary, Window, Instance]
           \<and> m_swapChainImageViews app = []"
  using assms by (simp add: run_steps)

lemma run_fails_at_surface:
  assumes "glfwInit env"
      and "ENABLE_VALIDATION_LAYERS env \<longrightarrow> checkValidationLayerSupport (instanceLayerProperties env)"
      and "vkCreateInstance env"
      and "ENABLE_VALIDATION_LAYERS env \<longrightarrow> vkCreateDebugUtilsMessengerEXT env = Some True"
      and "\<not> glfwCreateWindowSurface env"
  shows "\<exists>app. run env = Some (Some SurfaceCreationError, app)
           \<and> events app = map Created ([GLFWLibrary, Window, Instance]
                 @ (if ENABLE_VALIDATION_LAYERS env then [DebugMessenger] else []))
           \<and> m_swapChainImageViews app = []"
  using assms by (cases "ENABLE_VALIDATION_LAYERS env") (simp_all add: run_steps)

lemma run_fails_without_gpu:
  assumes "glfwInit env"
      and "ENABLE_VALIDATION_LAYERS env \<longrightarrow> checkValidationLayerSupport (instanceLayerProperties env)"
      and "vkCreateInstance env"
      and "ENABLE_VALIDATION_LAYERS env \<longrightarrow> vkCreateDebugUtilsMessengerEXT env = Some True"
      and "glfwCreateWindowSurface env"
      and "physicalDevices env = []"
  shows "\<exists>app. run env = Some (Some NoGPUError, app)
           \<and> events app = map Created ([GLFWLibrary, Window, Instance]
                 @ (if ENABLE_VALIDATION_LAYERS env then [DebugMessenger] else []) @ [Surface])
           \<and> m_swapChainImageViews app = []"
  using assms by (cases "ENABLE_VALIDATION_LAYERS env") (simp_all add: run_steps)

lemma run_fails_without_suitable_gpu:
  assumes "glfwInit env"
      and "ENABLE_VALIDATION_LAYERS env \<longrightarrow> checkValidationLayerSupport (instanceLayerProperties env)"
      and "vkCreateInstance env"
      and "ENABLE_VALIDATION_LAYERS env \<longrightarrow> vkCreateDebugUtilsMessengerEXT env = Some True"
      and "glfwCreateWindowSurface env"
      and "physicalDevices env \<noteq> []"
      and "\<forall>d \<in> set (physicalDevices env). \<not> fst (isPhysicalDeviceSuitable d)"
  shows "\<exists>app. run env = Some (Some NoSuitableDeviceError, app)
           \<and> events app = map Created ([GLFWLibrary, Window, Instance]
                 @ (if ENABLE_VALIDATION_LAYERS env then [DebugMessenger] else []) @ [Surface])
           \<and> m_swapChainImageViews app = []"
proof -
  have "selectPhysicalDevice_loop (physicalDevices env) = None"
    using assms(7) by (simp add: selectPhysicalDevice_loop_none)
  with assms show ?thesis
    by (cases "ENABLE_VALIDATION_LAYERS env") (simp_all add: run_steps)
qed

lemma selectPhysicalDevice_loop_finds:
  assumes "\<exists>d \<in> set devices. fst (isPhysicalDeviceSuitable d)"
  obtains device where "selectPhysicalDevice_loop devices = Some device"
    "fst (isPhysicalDeviceSuitable device)" "devices \<noteq> []"
proof -
  from assms have "selectPhysicalDevice_loop devices \<noteq> None"
    by (simp add: selectPhysicalDevice_loop_none)
  then obtain device where d: "selectPhysicalDevice_loop devices = Some device" by blast
  moreover from selectPhysicalDevice_loop_Some [OF d]
  have "fst (isPhysicalDeviceSuitable device)" by simp
  moreover from assms have "devices \<noteq> []" by auto
  ultimately show ?thesis by (rule that)
qed

lemma run_fails_at_device:
  assumes "glfwInit env"
      and "ENABLE_VALIDATION_LAYERS env \<longrightarrow> checkValidationLayerSupport (instanceLayerProperties env)"
      and "vkCreateInstance env"
      and "ENABLE_VALIDATION_LAYERS env \<longrightarrow> vkCreateDebugUtilsMessengerEXT env = Some True"
      and "glfwCreateWindowSurface env"
      and "\<exists>d \<in> set (physicalDevices env). fst (isPhysicalDeviceSuitable d)"
      and "\<not> vkCreateDevice env"
  shows "\<exists>app. run env = Some (Some DeviceCreationError, app)
           \<and> events app = map Created ([GLFWLibrary, Window, Instance]
                 @ (if ENABLE_VALIDATION_LAYERS env then [DebugMessenger] else []) @ [Surface])
           \<and> m_swapChainImageViews app = []"
proof -
  from assms(6) obtain device where d: "selectPhysicalDevice_loop (physicalDevices env) = Some device"
    "fst (isPhysicalDeviceSuitable device)" "physicalDevices env \<noteq> []"
    by (rule selectPhysicalDevice_loop_finds)
  from d(2) obtain graphics present where
    idx: "graphicsFamily (fst (findQueueFamilies device)) = Some graphics"
      "presentFamily (fst (findQueueFamilies device)) = Some present"
    by (rule suitable_indices)
  from assms d idx show ?thesis
    by (cases "ENABLE_VALIDATION_LAYERS env") (simp_all add: run_steps)
qed

lemma run_fails_at_swapchain:
  assumes "glfwInit env"
      and "ENABLE_VALIDATION_LAYERS env \<longrightarrow> checkValidationLayerSupport (instanceLayerProperties env)"
      and "vkCreateInstance env"
      and "ENABLE_VALIDATION_LAYERS env \<longrightarrow> vkCreateDebugUtilsMessengerEXT env = Some True"
      and "glfwCreateWindowSurface env"
      and "\<exists>d \<in> set (physicalDevices env). fst (isPhysicalDeviceSuitable d)"
      and "vkCreateDevice env"
      and "\<not> vkCreateSwapchainKHR env"
  shows "\<exists>app. run env = Some (Some SwapchainCreationError, app)
           \<and> events app = map Created ([GLFWLibrary, Window, Instance]
                 @ (if ENABLE_VALIDATION_LAYERS env then [DebugMessenger] else [])
                 @ [Surface, Device])
           \<and> m_swapChainImageViews app = []"
proof -
  from assms(6) obtain device where d: "selectPhysicalDevice_loop (physicalDevices env) = Some device"
    "fst (isPhysicalDeviceSuitable device)" "physicalDevices env \<noteq> []"
    by (rule selectPhysicalDevice_loop_finds)
  from d(2) obtain graphics present where
    idx: "graphicsFamily (fst (findQueueFamilies device)) = Some graphics"
      "presentFamily (fst (findQueueFamilies device)) = Some present"
    by (rule suitable_indices)
  from d(2) obtain surfaceFormat where
    fmt: "selectSwapSurfaceFormat (formats (fst (querySwapChainSupport device))) = Inr surfaceFormat"
    by (rule suitable_format)
  obtain createInfo where ci: "swapChainCreateInfo device (glfwGetWindowSize env) = Inr createInfo"
    using idx fmt by (simp add: swapChainCreateInfo_def Let_def)
  from assms d idx ci show ?thesis
    by (cases "ENABLE_VALIDATION_LAYERS env") (simp_all add: run_steps)
qed

lemma createImageViews_loop_fails_at:
  assumes "k < length images" and "\<forall>j < k. create (i + j)" and "\<not> create (i + k)"
  shows "\<exists>views'. createImageViews_loop create i images views evs
           = (Some ImageViewCreationError, views',
              evs @ map (\<lambda>j. Created (ImageView j)) [i ..< i + k])"
  using assms
proof (induction images arbitrary: i k views evs)
  case Nil
  then show ?case by simp
next
  case (Cons swapChainImage rest)
  show ?case
  proof (cases k)
    case 0
    with Cons.prems(3) show ?thesis by simp
  next
    case (Suc k')
    from Cons.prems(2) Suc have here: "create i" by force
    have len: "k' < length rest" using Cons.prems(1) Suc by simp
    have earlier: "\<forall>j < k'. create (Suc i + j)"
      using Cons.prems(2) Suc by (metis Suc_less_eq add_Suc_shift)
    have at: "\<not> create (Suc i + k')"
      using Cons.prems(3) Suc by simp
    from Cons.IH [OF len earlier at, of "views[i := Some i]" "evs @ [Created (ImageView i)]"]
    obtain views' where "createImageViews_loop create (Suc i) rest (views[i := Some i])
          (evs @ [Created (ImageView i)])
        = (Some ImageViewCreationError, views',
           (evs @ [Created (ImageView i)]) @ map (\<lambda>j. Created (ImageView j)) [Suc i ..< Suc i + k'])"
      by blast
    with here Suc have "createImageViews_loop create i (swapChainImage # rest) views evs
        = (Some ImageViewCreationError, views',
           evs @ map (\<lambda>j. Created (ImageView j)) [i ..< i + k])"
      by (simp add: upt_conv_Cons del: upt_Suc)
    then show ?thesis by blast
  qed
qed

lemma createImageViews_fails_at:
  assumes "k < length (m_swapChainImages app)"
      and "\<forall>j < k. vkCreateImageView env j" and "\<not> vkCreateImageView env k"
  shows "createImageViews env app
         = (Some ImageViewCreationError,
            app\<lparr>events := events app @ map (\<lambda>j. Created (ImageView j)) [0 ..< k]\<rparr>)"
proof -
  from createImageViews_loop_fails_at [of k "m_swapChainImages app" "vkCreateImageView env" 0]
    assms
  obtain views' where "createImageViews_loop (vkCreateImageView env) 0 (m_swapChainImages app)
        (replicate (length (m_swapChainImages app)) None) (events app)
      = (Some ImageViewCreationError, views',
         events app @ map (\<lambda>j. Created (ImageView j)) [0 ..< k])"
    by fastforce
  then show ?thesis by (simp add: createImageViews_def)
qed

lemma run_fails_at_image_view:
  assumes "glfwInit env"
      and "ENABLE_VALIDATION_LAYERS env \<longrightarrow> checkValidationLayerSupport (instanceLayerProperties env)"
      and "vkCreateInstance env"
      and "ENABLE_VALIDATION_LAYERS env \<longrightarrow> vkCreateDebugUtilsMessengerEXT env = Some True"
      and "glfwCreateWindowSurface env"
      and "\<exists>d \<in> set (physicalDevices env). fst (isPhysicalDeviceSuitable d)"
      and "vkCreateDevice env"
      and "vkCreateSwapchainKHR env"
      and "k < swapchainImageCount env"
      and "\<forall>j < k. vkCreateImageView env j" and "\<not> vkCreateImageView env k"
  shows "\<exists>app. run env = Some (Some ImageViewCreationError, app)
           \<and> events app = map Created ([GLFWLibrary, Window, Instance]
                 @ (if ENABLE_VALIDATION_LAYERS env then [DebugMessenger] else [])
                 @ [Surface, Device, SwapChain] @ map ImageView [0 ..< k])
           \<and> m_swapChainImageViews app = []"
proof -
  from assms(6) obtain device where d: "selectPhysicalDevice_loop (physicalDevices env) = Some device"
    "fst (isPhysicalDeviceSuitable device)" "physicalDevices env \<noteq> []"
    by (rule selectPhysicalDevice_loop_finds)
  from d(2) obtain graphics present where
    idx: "graphicsFamily (fst (findQueueFamilies device)) = Some graphics"
      "presentFamily (fst (findQueueFamilies device)) = Some present"
    by (rule suitable_indices)
  from d(2) obtain surfaceFormat where
    fmt: "selectSwapSurfaceFormat (formats (fst (querySwapChainSupport device))) = Inr surfaceFormat"
    by (rule suitable_format)
  obtain createInfo where ci: "swapChainCreateInfo device (glfwGetWindowSize env) = Inr createInfo"
    using idx fmt by (simp add: swapChainCreateInfo_def Let_def)
  have views: "createImageViews env app
         = (Some ImageViewCreationError,
            app\<lparr>events := events app @ map (\<lambda>j. Created (ImageView j)) [0 ..< k]\<rparr>)"
    if "m_swapChainImages app = [0 ..< swapchainImageCount env]" for app
    using that assms(9,10,11) by (intro createImageViews_fails_at) simp_all
  from assms(1-8) d idx ci show ?thesis
    by (cases "ENABLE_VALIDATION_LAYERS env") (simp_all add: run_steps views comp_def)
qed


text \<open>
  Claim C2, as the code has it, for a run in which GLFW starts. The steps of
  \<open>initVulkan\<close> are taken in order; for each step, if the steps before it succeed and
  this one fails (the validation layer is missing, \<open>vkCreateInstance\<close> fails, the
  messenger cannot be installed, the surface cannot be created, no device is enumerated,
  no device is suitable, \<open>vkCreateDevice\<close> fails, \<open>vkCreateSwapchainKHR\<close> fails, or the
  image view at index \<open>k\<close> is the first that cannot be created), \<open>run\<close> ends with the
  exception of that step and never reaches \<open>cleanup\<close>: the events are exactly the
  creations of the resources created before the failure point, in creation order, each
  once, and no resource is destroyed. The image views created before a failing index
  are dropped with the local vector: \<open>m_swapChainImageViews\<close> stays empty. Whatever the
  exception of a run is, its events are creations only.
\<close>

theorem run_failure_destroys_nothing:
  assumes "glfwInit env"
  shows "(run env = Some (Some e, app) \<longrightarrow>
            (\<forall>r. Destroyed r \<notin> set (events app))
            \<and> m_swapChainImageViews app = []
            \<and> (\<exists>created rest.
                  events app = map Created created
                  \<and> created @ rest =
                      [GLFWLibrary, Window, Instance]
                      @ (if ENABLE_VALIDATION_LAYERS env then [DebugMessenger] else [])
                      @ [Surface, Device, SwapChain]
                      @ map ImageView [0 ..< swapchainImageCount env]))
       \<and> ((ENABLE_VALIDATION_LAYERS env
             \<and> \<not> checkValidationLayerSupport (instanceLayerProperties env) \<longrightarrow>
             (\<exists>app'. run env = Some (Some UnsupportedLayerError, app')
                  \<and> events app' = map Created ([GLFWLibrary, Window])
                  \<and> m_swapChainImageViews app' = []))
        \<and> ((ENABLE_VALIDATION_LAYERS env
               \<longrightarrow> checkValidationLayerSupport (instanceLayerProperties env)) \<longrightarrow>
            (\<not> vkCreateInstance env \<longrightarrow>
             (\<exists>app'. run env = Some (Some InstantiationError, app')
                  \<and> events app' = map Created ([GLFWLibrary, Window])
                  \<and> m_swapChainImageViews app' = []))
          \<and> (vkCreateInstance env \<longrightarrow>
              (ENABLE_VALIDATION_LAYERS env
                \<and> vkCreateDebugUtilsMessengerEXT env \<noteq> Some True \<longrightarrow>
               (\<exists>app'. run env = Some (Some DiagnosticInstallError, app')
                  \<and> events app' = map Created ([GLFWLibrary, Window, Instance])
                  \<and> m_swapChainImageViews app' = []))
            \<and> ((ENABLE_VALIDATION_LAYERS env
                   \<longrightarrow> vkCreateDebugUtilsMessengerEXT env = Some True) \<longrightarrow>
                (\<not> glfwCreateWindowSurface env \<longrightarrow>
                 (\<exists>app'. run env = Some (Some SurfaceCreationError, app')
                  \<and> events app' = map Created ([GLFWLibrary, Window, Instance]
                        @ (if ENABLE_VALIDATION_LAYERS env then [DebugMessenger] else []))
                  \<and> m_swapChainImageViews app' = []))
              \<and> (glfwCreateWindowSurface env \<longrightarrow>
                  (physicalDevices env = [] \<longrightarrow>
                   (\<exists>app'. run env = Some (Some NoGPUError, app')
                  \<and> events app' = map Created ([GLFWLibrary, Window, Instance]
                        @ (if ENABLE_VALIDATION_LAYERS env then [DebugMessenger] else []) @ [Surface])
                  \<and> m_swapChainImageViews app' = []))
                \<and> (physicalDevices env \<noteq> []
                     \<and> (\<forall>d \<in> set (physicalDevices env). \<not> fst (isPhysicalDeviceSuitable d)) \<longrightarrow>
                   (\<exists>app'. run env = Some (Some NoSuitableDeviceError, app')
                  \<and> events app' = map Created ([GLFWLibrary, Window, Instance]
                        @ (if ENABLE_VALIDATION_LAYERS env then [DebugMessenger] else []) @ [Surface])
                  \<and> m_swapChainImageViews app' = []))
                \<and> ((\<exists>d \<in> set (physicalDevices env). fst (isPhysicalDeviceSuitable d)) \<longrightarrow>
                    (\<not> vkCreateDevice env \<longrightarrow>
                     (\<exists>app'. run env = Some (Some DeviceCreationError, app')
                  \<and> events app' = map Created ([GLFWLibrary, Window, Instance]
                        @ (if ENABLE_VALIDATION_LAYERS env then [DebugMessenger] else []) @ [Surface])
                  \<and> m_swapChainImageViews app' = []))
                  \<and> (vkCreateDevice env \<longrightarrow>
                      (\<not> vkCreateSwapchainKHR env \<longrightarrow>
                       (\<exists>app'. run env = Some (Some SwapchainCreationError, app')
                  \<and> events app' = map Created ([GLFWLibrary, Window, Instance]
                        @ (if ENABLE_VALIDATION_LAYERS env then [DebugMessenger] else [])
                        @ [Surface, Device])
                  \<and> m_swapChainImageViews app' = []))
                    \<and> (vkCreateSwapchainKHR env \<and> k < swapchainImageCount env
                         \<and> (\<forall>j < k. vkCreateImageView env j) \<and> \<not> vkCreateImageView env k \<longrightarrow>
                       (\<exists>app'. run env = Some (Some ImageViewCreationError, app')
                  \<and> events app' = map Created ([GLFWLibrary, Window, Instance]
                        @ (if ENABLE_VALIDATION_LAYERS env then [DebugMessenger] else [])
                        @ [Surface, Device, SwapChain] @ map ImageView [0 ..< k])
                  \<and> m_swapChainImageViews app' = [])))))))))"
  apply (rule conjI)
  subgoal by (intro impI) (rule run_failure_prefix [OF assms])
  subgoal
    using assms
    by (intro conjI impI;
        (rule run_fails_at_layers run_fails_at_instance run_fails_at_messenger
              run_fails_at_surface run_fails_without_gpu run_fails_without_suitable_gpu
              run_fails_at_device run_fails_at_swapchain run_fails_at_image_view; blast))
  done


theorem run_failure_destroys_nothing_witness:
  "(\<exists>app'. run env_view1_fails = Some (Some ImageViewCreationError, app')
       \<and> events app' = map Created [GLFWLibrary, Window, Instance, DebugMessenger,
                                      Surface, Device, SwapChain, ImageView 0]
       \<and> m_swapChainImageViews app' = [])
   \<and> (\<exists>app'. run (env_ok\<lparr>glfwCreateWindowSurface := False\<rparr>)
               = Some (Some SurfaceCreationError, app')
       \<and> events app' = map Created [GLFWLibrary, Window, Instance, DebugMessenger]
       \<and> m_swapChainImageViews app' = [])
   \<and> (\<forall>r. Destroyed r \<notin> set (events app_view1_failed))"
proof -
  let ?e1 = env_view1_fails
  let ?e2 = "env_ok\<lparr>glfwCreateWindowSurface := False\<rparr>"
  have layers: "checkValidationLayerSupport [''VK_LAYER_KHRONOS_validation'']"
    by (simp add: checkValidationLayerSupport_def VALIDATION_LAYERS_def
          VK_LAYER_KHRONOS_validation_def)
  have e1: "glfwInit ?e1" "ENABLE_VALIDATION_LAYERS ?e1"
    "checkValidationLayerSupport (instanceLayerProperties ?e1)"
    "vkCreateInstance ?e1" "vkCreateDebugUtilsMessengerEXT ?e1 = Some True"
    "glfwCreateWindowSurface ?e1"
    "\<exists>d \<in> set (physicalDevices ?e1). fst (isPhysicalDeviceSuitable d)"
    "vkCreateDevice ?e1" "vkCreateSwapchainKHR ?e1" "1 < swapchainImageCount ?e1"
    "\<forall>j < 1. vkCreateImageView ?e1 j" "\<not> vkCreateImageView ?e1 1"
    by (simp_all add: env_view1_fails_def env_ok_def layers suitable_gpu_one_family)
  have e2: "glfwInit ?e2" "ENABLE_VALIDATION_LAYERS ?e2"
    "checkValidationLayerSupport (instanceLayerProperties ?e2)"
    "vkCreateInstance ?e2" "vkCreateDebugUtilsMessengerEXT ?e2 = Some True"
    "\<not> glfwCreateWindowSurface ?e2"
    by (simp_all add: env_ok_def layers)
  note t1 = run_failure_destroys_nothing
              [OF e1(1), where k = 1 and e = ImageViewCreationError and app = app_view1_failed]
  note t2 = run_failure_destroys_nothing [OF e2(1), where k = 0]
  from t1 e1 have view: "\<exists>app'. run ?e1 = Some (Some ImageViewCreationError, app')
       \<and> events app' = map Created ([GLFWLibrary, Window, Instance]
                 @ (if ENABLE_VALIDATION_LAYERS ?e1 then [DebugMessenger] else [])
                 @ [Surface, Device, SwapChain] @ map ImageView [0 ..< 1])
       \<and> m_swapChainImageViews app' = []"
    by blast
  from t2 e2 have surface: "\<exists>app'. run ?e2 = Some (Some SurfaceCreationError, app')
       \<and> events app' = map Created ([GLFWLibrary, Window, Instance]
                 @ (if ENABLE_VALIDATION_LAYERS ?e2 then [DebugMessenger] else []))
       \<and> m_swapChainImageViews app' = []"
    by blast
  from t1 run_env_view1_fails have none: "\<forall>r. Destroyed r \<notin> set (events app_view1_failed)"
    by blast
  from view e1(2) have view': "\<exists>app'. run ?e1 = Some (Some ImageViewCreationError, app')
       \<and> events app' = map Created [GLFWLibrary, Window, Instance, DebugMessenger,
                                      Surface, Device, SwapChain, ImageView 0]
       \<and> m_swapChainImageViews app' = []"
    by simp
  from surface e2(2) have surface': "\<exists>app'. run ?e2 = Some (Some SurfaceCreationError, app')
       \<and> events app' = map Created [GLFWLibrary, Window, Instance, DebugMessenger]
       \<and> m_swapChainImageViews app' = []"
    by simp
  from view' surface' none show ?thesis by blast
qed

end
